theory Spec2Isabelle
  imports Main
begin

section \<open>JavaScript values used by the catalog code\<close>

text \<open>
  A JavaScript \<open>number\<close> as the code uses it: an integer, \<open>NaN\<close> (what \<open>parseInt\<close>
  returns when no digit is found) or an infinity (what it returns for a digit run beyond
  the range of a double). Arithmetic with \<open>NaN\<close> gives \<open>NaN\<close> and every comparison
  with \<open>NaN\<close> is false. Sums and differences of integers are exact here (their rounding
  beyond \<open>2^53\<close> is outside the model), and \<open>-0\<close> is not told apart from \<open>0\<close>.
\<close>

datatype jsnum = NaN | Num int | PosInfinity | NegInfinity

fun js_add :: "jsnum \<Rightarrow> jsnum \<Rightarrow> jsnum" where
  "js_add NaN _ = NaN"
| "js_add _ NaN = NaN"
| "js_add (Num a) (Num b) = Num (a + b)"
| "js_add PosInfinity NegInfinity = NaN"
| "js_add NegInfinity PosInfinity = NaN"
| "js_add PosInfinity _ = PosInfinity"
| "js_add _ PosInfinity = PosInfinity"
| "js_add NegInfinity _ = NegInfinity"
| "js_add _ NegInfinity = NegInfinity"

fun js_sub :: "jsnum \<Rightarrow> jsnum \<Rightarrow> jsnum" where
  "js_sub NaN _ = NaN"
| "js_sub _ NaN = NaN"
| "js_sub (Num a) (Num b) = Num (a - b)"
| "js_sub PosInfinity PosInfinity = NaN"
| "js_sub NegInfinity NegInfinity = NaN"
| "js_sub PosInfinity _ = PosInfinity"
| "js_sub NegInfinity _ = NegInfinity"
| "js_sub _ PosInfinity = NegInfinity"
| "js_sub _ NegInfinity = PosInfinity"

fun js_le :: "jsnum \<Rightarrow> jsnum \<Rightarrow> bool" where
  "js_le NaN _ = False"
| "js_le _ NaN = False"
| "js_le (Num a) (Num b) = (a \<le> b)"
| "js_le NegInfinity _ = True"
| "js_le _ PosInfinity = True"
| "js_le _ _ = False"

text \<open>Truthiness of a value of type \<open>string | undefined\<close>: \<open>undefined\<close> and the empty
  string are falsy.\<close>

fun truthy :: "string option \<Rightarrow> bool" where
  "truthy None = False"
| "truthy (Some s) = (s \<noteq> [])"

text \<open>A parameter with a default value: the default is taken when the argument is
  \<open>undefined\<close> (here \<open>None\<close>).\<close>

fun dflt :: "'a \<Rightarrow> 'a option \<Rightarrow> 'a" where
  "dflt d None = d"
| "dflt d (Some v) = v"

text \<open>\<open>(data as Product[]) || []\<close>: an array is truthy even when empty, so only \<open>null\<close>
  is replaced.\<close>

fun or_empty :: "'a list option \<Rightarrow> 'a list" where
  "or_empty None = []"
| "or_empty (Some xs) = xs"

text \<open>\<open>count || 0\<close>: \<open>null\<close> and \<open>0\<close> both give \<open>0\<close>.\<close>

fun or_zero :: "nat option \<Rightarrow> nat" where
  "or_zero None = 0"
| "or_zero (Some n) = (if n = 0 then 0 else n)"

text \<open>A thrown \<open>Error\<close> with its message.\<close>

datatype JsError = Error string

section \<open>Data model (types/product.ts)\<close>

text \<open>The fields of \<open>Product\<close>, prefixed with \<open>p_\<close>. The price is an integer amount of
  the single currency; timestamps are the strings the store hands out.\<close>

record Product =
  p_id :: string
  p_name :: string
  p_description :: "string option"
  p_price :: int
  p_category :: "string option"
  p_stock_quantity :: int
  p_is_active :: bool
  p_created_at :: string
  p_updated_at :: string

section \<open>The query builder and the client (boundary to the data store)\<close>

text \<open>A column value as it appears in a filter or in a row.\<close>

datatype colval = VNull | VBool bool | VNum int | VStr string

text \<open>
  The query a builder chain describes: the table, the selected columns, the count option,
  the equality filters in the order they were added, the order clauses, the row range,
  the row limit and whether a single object is requested.
\<close>

record Query =
  q_from :: string
  q_select :: string
  q_count :: "string option"
  q_filters :: "(string \<times> colval) list"
  q_order :: "(string \<times> bool) list"
  q_range :: "(jsnum \<times> jsnum) option"
  q_limit :: "jsnum option"
  q_single :: bool

definition from_select :: "string \<Rightarrow> string \<Rightarrow> string option \<Rightarrow> Query" where
  "from_select tbl cols cnt =
     \<lparr>q_from = tbl, q_select = cols, q_count = cnt, q_filters = [], q_order = [],
      q_range = None, q_limit = None, q_single = False\<rparr>"

definition eq_filter :: "string \<Rightarrow> colval \<Rightarrow> Query \<Rightarrow> Query" where
  "eq_filter col v q = q\<lparr>q_filters := q_filters q @ [(col, v)]\<rparr>"

definition order_by :: "string \<Rightarrow> bool \<Rightarrow> Query \<Rightarrow> Query" where
  "order_by col ascending q = q\<lparr>q_order := q_order q @ [(col, ascending)]\<rparr>"

definition range_of :: "jsnum \<Rightarrow> jsnum \<Rightarrow> Query \<Rightarrow> Query" where
  "range_of lo hi q = q\<lparr>q_range := Some (lo, hi)\<rparr>"

definition limit_to :: "jsnum \<Rightarrow> Query \<Rightarrow> Query" where
  "limit_to n q = q\<lparr>q_limit := Some n\<rparr>"

definition single_row :: "Query \<Rightarrow> Query" where
  "single_row q = q\<lparr>q_single := True\<rparr>"

text \<open>The error object of the store and the response \<open>{ data, error, count }\<close>.\<close>

record PgError =
  message :: "string option"
  details :: "string option"
  hint :: "string option"
  code :: "string option"

record 'd Response =
  data :: "'d option"
  error :: "PgError option"
  count :: "nat option"

text \<open>
  The client returned by \<open>createSupabaseClient\<close>: awaiting a query either rejects
  (\<open>Inl\<close>, a thrown exception) or resolves to a response. A list query resolves to rows,
  a \<open>.single()\<close> query to one object.
\<close>

record Client =
  await_rows :: "Query \<Rightarrow> JsError + (Product list) Response"
  await_single :: "Query \<Rightarrow> JsError + Product Response"

text \<open>The two environment variables read from \<open>process.env\<close>.\<close>

record Env =
  NEXT_PUBLIC_SUPABASE_URL :: "string option"
  NEXT_PUBLIC_SUPABASE_ANON_KEY :: "string option"

section \<open>lib/supabase/server.ts\<close>

definition missing_env_message :: string where
  "missing_env_message = ''Missing Supabase environment variables. Please check NEXT_PUBLIC_SUPABASE_URL and NEXT_PUBLIC_SUPABASE_ANON_KEY.''"

definition createClient :: "Env \<Rightarrow> Client \<Rightarrow> JsError + Client" where
  "createClient env lib =
     (let supabaseUrl = NEXT_PUBLIC_SUPABASE_URL env;
          supabaseKey = NEXT_PUBLIC_SUPABASE_ANON_KEY env
      in if \<not> truthy supabaseUrl \<or> \<not> truthy supabaseKey
         then Inl (Error missing_env_message)
         else Inr lib)"

section \<open>lib/supabase/products.ts\<close>

text \<open>
  Each function takes the environment and the client library as arguments, builds its
  query, awaits it and inspects \<open>{ data, error, count }\<close>. A thrown error is \<open>Inl\<close>.
  What the functions write to the console is not part of the model.
\<close>

text \<open>The message of the error thrown by the query functions (Korean in the source: "an
  error occurred while loading the products").\<close>

definition load_error_message :: string where
  "load_error_message = ''An error occurred while loading the products.''"

record PaginatedProducts =
  products :: "Product list"
  total :: nat

subsection \<open>getProducts\<close>

definition getProducts_query :: Query where
  "getProducts_query =
     order_by ''created_at'' False
       (eq_filter ''is_active'' (VBool True) (from_select ''products'' ''*'' None))"

definition getProducts :: "Env \<Rightarrow> Client \<Rightarrow> JsError + Product list" where
  "getProducts env lib =
     (case createClient env lib of
        Inl e \<Rightarrow> Inl e
      | Inr supabase \<Rightarrow>
          (case await_rows supabase getProducts_query of
             Inl e \<Rightarrow> Inl e
           | Inr r \<Rightarrow>
               if error r \<noteq> None then Inl (Error load_error_message)
               else Inr (or_empty (data r))))"

subsection \<open>getProductsByCategory\<close>

definition getProductsByCategory_query :: "string \<Rightarrow> Query" where
  "getProductsByCategory_query cat =
     order_by ''created_at'' False
       (eq_filter ''category'' (VStr cat)
         (eq_filter ''is_active'' (VBool True) (from_select ''products'' ''*'' None)))"

definition getProductsByCategory :: "Env \<Rightarrow> Client \<Rightarrow> string \<Rightarrow> JsError + Product list" where
  "getProductsByCategory env lib cat =
     (case createClient env lib of
        Inl e \<Rightarrow> Inl e
      | Inr supabase \<Rightarrow>
          (case await_rows supabase (getProductsByCategory_query cat) of
             Inl e \<Rightarrow> Inl e
           | Inr r \<Rightarrow>
               if error r \<noteq> None then Inl (Error load_error_message)
               else Inr (or_empty (data r))))"

subsection \<open>getFeaturedProducts\<close>

definition getFeaturedProducts_query :: "jsnum \<Rightarrow> Query" where
  "getFeaturedProducts_query n =
     limit_to n
       (order_by ''created_at'' False
         (eq_filter ''is_active'' (VBool True) (from_select ''products'' ''*'' None)))"

text \<open>The body of the \<open>try\<close> block: an exception raised inside it is \<open>Inl\<close>.\<close>

definition getFeaturedProducts_try :: "Env \<Rightarrow> Client \<Rightarrow> jsnum option \<Rightarrow> JsError + Product list" where
  "getFeaturedProducts_try env lib lim =
     (let supabaseUrl = NEXT_PUBLIC_SUPABASE_URL env;
          supabaseKey = NEXT_PUBLIC_SUPABASE_ANON_KEY env
      in if \<not> truthy supabaseUrl \<or> \<not> truthy supabaseKey then Inr []
         else
           (case createClient env lib of
              Inl e \<Rightarrow> Inl e
            | Inr supabase \<Rightarrow>
                (case await_rows supabase (getFeaturedProducts_query (dflt (Num 6) lim)) of
                   Inl e \<Rightarrow> Inl e
                 | Inr r \<Rightarrow>
                     if error r \<noteq> None then Inr []
                     else Inr (or_empty (data r)))))"

text \<open>The \<open>catch\<close> block returns the empty array for whatever was thrown.\<close>

definition getFeaturedProducts :: "Env \<Rightarrow> Client \<Rightarrow> jsnum option \<Rightarrow> JsError + Product list" where
  "getFeaturedProducts env lib lim =
     (case getFeaturedProducts_try env lib lim of
        Inl err \<Rightarrow> Inr []
      | Inr r \<Rightarrow> Inr r)"

subsection \<open>getProductsWithPagination\<close>

text \<open>The \<open>switch\<close> over \<open>sortBy\<close>, with its \<open>default\<close> arm.\<close>

definition sort_switch :: "string \<Rightarrow> Query \<Rightarrow> Query" where
  "sort_switch sortBy q =
     (if sortBy = ''price_asc'' then order_by ''price'' True q
      else if sortBy = ''price_desc'' then order_by ''price'' False q
      else if sortBy = ''newest'' then order_by ''created_at'' False q
      else if sortBy = ''oldest'' then order_by ''created_at'' True q
      else if sortBy = ''name_asc'' then order_by ''name'' True q
      else order_by ''created_at'' False q)"

definition getProductsWithPagination_query ::
  "string option \<Rightarrow> string option \<Rightarrow> jsnum option \<Rightarrow> jsnum option \<Rightarrow> Query" where
  "getProductsWithPagination_query cat sortBy lim off =
     (let sortBy' = dflt ''newest'' sortBy;
          limit = dflt (Num 12) lim;
          offset = dflt (Num 0) off;
          query = eq_filter ''is_active'' (VBool True)
                    (from_select ''products'' ''*'' (Some ''exact''));
          query = (case cat of
                     None \<Rightarrow> query
                   | Some c \<Rightarrow> if truthy cat then eq_filter ''category'' (VStr c) query else query);
          query = sort_switch sortBy' query
      in range_of offset (js_sub (js_add offset limit) (Num 1)) query)"

definition getProductsWithPagination ::
  "Env \<Rightarrow> Client \<Rightarrow> string option \<Rightarrow> string option \<Rightarrow> jsnum option \<Rightarrow> jsnum option
     \<Rightarrow> JsError + PaginatedProducts" where
  "getProductsWithPagination env lib cat sortBy lim off =
     (case createClient env lib of
        Inl e \<Rightarrow> Inl e
      | Inr supabase \<Rightarrow>
          (case await_rows supabase (getProductsWithPagination_query cat sortBy lim off) of
             Inl e \<Rightarrow> Inl e
           | Inr r \<Rightarrow>
               if error r \<noteq> None then Inl (Error load_error_message)
               else Inr \<lparr>products = or_empty (data r), total = or_zero (count r)\<rparr>))"

subsection \<open>getProductById\<close>

definition getProductById_query :: "string \<Rightarrow> Query" where
  "getProductById_query ident =
     single_row
       (eq_filter ''is_active'' (VBool True)
         (eq_filter ''id'' (VStr ident) (from_select ''products'' ''*'' None)))"

definition getProductById :: "Env \<Rightarrow> Client \<Rightarrow> string \<Rightarrow> JsError + Product option" where
  "getProductById env lib ident =
     (case createClient env lib of
        Inl e \<Rightarrow> Inl e
      | Inr supabase \<Rightarrow>
          (case await_single supabase (getProductById_query ident) of
             Inl e \<Rightarrow> Inl e
           | Inr r \<Rightarrow>
               (case error r of
                  Some err \<Rightarrow>
                    if code err = Some ''PGRST116'' then Inr None
                    else Inl (Error load_error_message)
                | None \<Rightarrow> Inr (data r))))"

section \<open>The external data store\<close>

text \<open>
  Modelled from the spec: the external tabular data store behind the client, which is not
  part of the repository. It serves "select rows from \<open>products\<close> where the predicate
  holds, order by (column, direction), limited to a row range, optionally also returning
  an exact count of matching rows ignoring the range". A \<open>.single()\<close> request answers
  with the row when exactly one row is selected and with the store's "no row" error
  (code \<open>PGRST116\<close>) otherwise.
\<close>

definition column :: "string \<Rightarrow> Product \<Rightarrow> colval" where
  "column c p =
     (if c = ''id'' then VStr (p_id p)
      else if c = ''name'' then VStr (p_name p)
      else if c = ''description'' then (case p_description p of None \<Rightarrow> VNull | Some d \<Rightarrow> VStr d)
      else if c = ''price'' then VNum (p_price p)
      else if c = ''category'' then (case p_category p of None \<Rightarrow> VNull | Some d \<Rightarrow> VStr d)
      else if c = ''stock_quantity'' then VNum (p_stock_quantity p)
      else if c = ''is_active'' then VBool (p_is_active p)
      else if c = ''created_at'' then VStr (p_created_at p)
      else if c = ''updated_at'' then VStr (p_updated_at p)
      else VNull)"

definition matches :: "(string \<times> colval) list \<Rightarrow> Product \<Rightarrow> bool" where
  "matches fs p = list_all (\<lambda>(c, v). column c p = v) fs"

text \<open>The order of column values: numbers by value, strings lexicographically by
  character code (timestamps of one format and zone then sort by time), nulls last.\<close>

fun str_le :: "string \<Rightarrow> string \<Rightarrow> bool" where
  "str_le [] _ = True"
| "str_le (a # as) [] = False"
| "str_le (a # as) (b # bs) =
     (if (of_char a :: nat) < of_char b then True
      else if (of_char b :: nat) < of_char a then False
      else str_le as bs)"

fun colval_le :: "colval \<Rightarrow> colval \<Rightarrow> bool" where
  "colval_le _ VNull = True"
| "colval_le VNull _ = False"
| "colval_le (VNum a) (VNum b) = (a \<le> b)"
| "colval_le (VStr a) (VStr b) = str_le a b"
| "colval_le (VBool a) (VBool b) = (a \<longrightarrow> b)"
| "colval_le _ _ = True"

definition clause_le :: "string \<times> bool \<Rightarrow> Product \<Rightarrow> Product \<Rightarrow> bool" where
  "clause_le cl a b =
     (if snd cl then colval_le (column (fst cl) a) (column (fst cl) b)
      else colval_le (column (fst cl) b) (column (fst cl) a))"

fun insert_row :: "string \<times> bool \<Rightarrow> Product \<Rightarrow> Product list \<Rightarrow> Product list" where
  "insert_row cl x [] = [x]"
| "insert_row cl x (y # ys) =
     (if clause_le cl x y then x # y # ys else y # insert_row cl x ys)"

definition sort_clause :: "string \<times> bool \<Rightarrow> Product list \<Rightarrow> Product list" where
  "sort_clause cl xs = foldr (insert_row cl) xs []"

text \<open>Several order clauses: the first is the major key (stable sorts, last clause first).\<close>

definition sort_rows :: "(string \<times> bool) list \<Rightarrow> Product list \<Rightarrow> Product list" where
  "sort_rows cls xs = foldr sort_clause cls xs"

text \<open>The inclusive row range \<open>[lo, hi]\<close>: the rows whose index \<open>i\<close> satisfies
  \<open>lo \<le> i \<le> hi\<close>.\<close>

definition rows_in_range :: "jsnum \<Rightarrow> jsnum \<Rightarrow> 'a list \<Rightarrow> 'a list" where
  "rows_in_range lo hi xs =
     map (nth xs)
       (filter (\<lambda>i. js_le lo (Num (int i)) \<and> js_le (Num (int i)) hi) [0..<length xs])"

definition selected :: "Product list \<Rightarrow> Query \<Rightarrow> Product list" where
  "selected tbl q = filter (matches (q_filters q)) tbl"

definition window :: "Query \<Rightarrow> Product list \<Rightarrow> Product list" where
  "window q xs =
     (let ys = (case q_range q of None \<Rightarrow> xs | Some (lo, hi) \<Rightarrow> rows_in_range lo hi xs)
      in case q_limit q of
           None \<Rightarrow> ys
         | Some n \<Rightarrow> rows_in_range (Num 0) (js_sub n (Num 1)) ys)"

definition answer_rows :: "Product list \<Rightarrow> Query \<Rightarrow> Product list" where
  "answer_rows tbl q = window q (sort_rows (q_order q) (selected tbl q))"

definition no_row_error :: PgError where
  "no_row_error =
     \<lparr>message = Some ''JSON object requested, multiple (or no) rows returned'',
      details = None, hint = None, code = Some ''PGRST116''\<rparr>"

definition table_store :: "Product list \<Rightarrow> Client" where
  "table_store tbl =
     \<lparr>await_rows = (\<lambda>q. Inr
        \<lparr>data = Some (answer_rows tbl q), error = None,
         count = (if q_count q = Some ''exact'' then Some (length (selected tbl q)) else None)\<rparr>),
      await_single = (\<lambda>q.
        (case answer_rows tbl q of
           [p] \<Rightarrow> Inr \<lparr>data = Some p, error = None, count = None\<rparr>
         | _ \<Rightarrow> Inr \<lparr>data = None, error = Some no_row_error, count = None\<rparr>))\<rparr>"

section \<open>app/api/products/route.ts\<close>

text \<open>
  Strings are the UTF-8 bytes of the JavaScript string. \<open>parseInt(s, 10)\<close> skips the
  leading white space and line terminators of the language, accepts one sign, and reads
  the longest run of decimal digits that follows; what comes after the digits is ignored.
  Without a digit the result is \<open>NaN\<close>; otherwise it is the Number for the signed value
  of the digits.
\<close>

text \<open>The white space and line terminators of the language, in UTF-8: U+0009 to U+000D,
  U+0020, U+00A0, U+1680, U+2000 to U+200A, U+2028, U+2029, U+202F, U+205F, U+3000 and
  U+FEFF.\<close>

definition js_whitespace :: "string list" where
  "js_whitespace =
     [[CHR 0x09], [CHR 0x0A], [CHR 0x0B], [CHR 0x0C], [CHR 0x0D], [CHR 0x20],
      [CHR 0xC2, CHR 0xA0],
      [CHR 0xE1, CHR 0x9A, CHR 0x80],
      [CHR 0xE2, CHR 0x80, CHR 0x80], [CHR 0xE2, CHR 0x80, CHR 0x81],
      [CHR 0xE2, CHR 0x80, CHR 0x82], [CHR 0xE2, CHR 0x80, CHR 0x83],
      [CHR 0xE2, CHR 0x80, CHR 0x84], [CHR 0xE2, CHR 0x80, CHR 0x85],
      [CHR 0xE2, CHR 0x80, CHR 0x86], [CHR 0xE2, CHR 0x80, CHR 0x87],
      [CHR 0xE2, CHR 0x80, CHR 0x88], [CHR 0xE2, CHR 0x80, CHR 0x89],
      [CHR 0xE2, CHR 0x80, CHR 0x8A],
      [CHR 0xE2, CHR 0x80, CHR 0xA8], [CHR 0xE2, CHR 0x80, CHR 0xA9],
      [CHR 0xE2, CHR 0x80, CHR 0xAF],
      [CHR 0xE2, CHR 0x81, CHR 0x9F],
      [CHR 0xE3, CHR 0x80, CHR 0x80],
      [CHR 0xEF, CHR 0xBB, CHR 0xBF]]"

text \<open>The white space character a string starts with, if it starts with one.\<close>

definition leading_space :: "string \<Rightarrow> string option" where
  "leading_space s = find (\<lambda>w. take (length w) s = w) js_whitespace"

function skip_space :: "string \<Rightarrow> string" where
  "skip_space s =
     (case leading_space s of
        None \<Rightarrow> s
      | Some w \<Rightarrow> skip_space (drop (length w) s))"
  by pat_completeness auto
termination
proof (relation "measure length")
  show "wf (measure length)"
    by simp
next
  fix s w
  assume "leading_space s = Some w"
  then have w: "w \<in> set js_whitespace" and t: "take (length w) s = w"
    by (auto simp: leading_space_def find_Some_iff)
  from w have "w \<noteq> []"
    by (auto simp: js_whitespace_def)
  with t have "s \<noteq> []"
    by auto
  with \<open>w \<noteq> []\<close> show "(drop (length w) s, s) \<in> measure length"
    by simp
qed

declare skip_space.simps [simp del]

definition is_digit :: "char \<Rightarrow> bool" where
  "is_digit c = (48 \<le> (of_char c :: nat) \<and> (of_char c :: nat) \<le> 57)"

definition digit_val :: "char \<Rightarrow> int" where
  "digit_val c = int (of_char c) - 48"

text \<open>The value of a run of decimal digits.\<close>

definition decimal :: "string \<Rightarrow> int" where
  "decimal ds = foldl (\<lambda>acc c. acc * 10 + digit_val c) 0 ds"

text \<open>
  The Number for an integer: the integer itself up to \<open>2^53\<close>; beyond, the nearest
  double (53 significant bits, a tie goes to the even one), and an infinity from
  \<open>2^1024\<close> on.
\<close>

function bit_length :: "int \<Rightarrow> nat" where
  "bit_length n = (if n \<le> 0 then 0 else Suc (bit_length (n div 2)))"
  by pat_completeness auto
termination
  by (relation "measure nat") simp_all

declare bit_length.simps [simp del]

definition nearest_double :: "int \<Rightarrow> int" where
  "nearest_double v =
     (if v < 2 ^ 53 then v
      else
        (let e = bit_length v - 53;
             q = v div 2 ^ e;
             r = v mod 2 ^ e;
             half = 2 ^ (e - 1);
             q' = (if half < r \<or> (r = half \<and> odd q) then q + 1 else q)
         in q' * 2 ^ e))"

definition to_number :: "int \<Rightarrow> jsnum" where
  "to_number i =
     (let r = nearest_double \<bar>i\<bar>
      in if 2 ^ 1024 \<le> r then (if i < 0 then NegInfinity else PosInfinity)
         else Num (if i < 0 then - r else r))"

text \<open>The string after its leading white space: the sign, the digits, the number.\<close>

definition parse_trimmed :: "string \<Rightarrow> jsnum" where
  "parse_trimmed t =
     (let neg = (case t of [] \<Rightarrow> False | c # r \<Rightarrow> c = CHR ''-'');
          u = (case t of [] \<Rightarrow> [] | c # r \<Rightarrow> if c = CHR ''-'' \<or> c = CHR ''+'' then r else t);
          ds = takeWhile is_digit u
      in if ds = [] then NaN
         else to_number (if neg then - decimal ds else decimal ds))"

definition parseInt10 :: "string \<Rightarrow> jsnum" where
  "parseInt10 s = parse_trimmed (skip_space s)"

text \<open>\<open>searchParams.get(k)\<close>: the first value of the key, or \<open>null\<close>.\<close>

definition get_param :: "(string \<times> string) list \<Rightarrow> string \<Rightarrow> string option" where
  "get_param searchParams k = map_of searchParams k"

text \<open>\<open>x || d\<close> for a string or \<open>null\<close>.\<close>

fun or_str :: "string option \<Rightarrow> string \<Rightarrow> string" where
  "or_str None d = d"
| "or_str (Some s) d = (if s = [] then d else s)"

text \<open>\<open>x || undefined\<close>.\<close>

fun or_undefined :: "string option \<Rightarrow> string option" where
  "or_undefined None = None"
| "or_undefined (Some s) = (if s = [] then None else Some s)"

datatype Json = ProductsJson "Product list" nat | ErrorJson string

record HttpResponse =
  status :: nat
  body :: Json

text \<open>The four arguments the handler computes from the query string.\<close>

definition GET_params ::
  "(string \<times> string) list \<Rightarrow> string option \<times> string \<times> jsnum \<times> jsnum" where
  "GET_params searchParams =
     (let category = or_undefined (get_param searchParams ''category'');
          sortBy = or_str (get_param searchParams ''sort'') ''newest'';
          limit = parseInt10 (or_str (get_param searchParams ''limit'') ''12'');
          offset = parseInt10 (or_str (get_param searchParams ''offset'') ''0'')
      in (category, sortBy, limit, offset))"

definition GET :: "Env \<Rightarrow> Client \<Rightarrow> (string \<times> string) list \<Rightarrow> HttpResponse" where
  "GET env lib searchParams =
     (case GET_params searchParams of
        (category, sortBy, limit, offset) \<Rightarrow>
          (case getProductsWithPagination env lib category (Some sortBy) (Some limit) (Some offset) of
             Inl e \<Rightarrow> \<lparr>status = 500, body = ErrorJson load_error_message\<rparr>
           | Inr r \<Rightarrow> \<lparr>status = 200, body = ProductsJson (products r) (total r)\<rparr>))"

section \<open>components/ProductListPagination.tsx\<close>

text \<open>\<open>String(n)\<close> for an integer.\<close>

definition digit_char :: "nat \<Rightarrow> char" where
  "digit_char d = char_of (48 + d)"

fun digits :: "nat \<Rightarrow> string" where
  "digits n = (if n < 10 then [digit_char n] else digits (n div 10) @ [digit_char (n mod 10)])"

declare digits.simps [simp del]

definition String_of :: "int \<Rightarrow> string" where
  "String_of i = (if i < 0 then CHR ''-'' # digits (nat (- i)) else digits (nat i))"

record Props =
  initialProducts :: "Product list"
  props_total :: int
  props_category :: "string option"
  props_sortBy :: string
  initialLimit :: int

text \<open>
  A request that has been sent and not yet answered, with the values of \<open>products\<close> and
  \<open>limit\<close> that the handler's closure saw when it was sent.
\<close>

record Fetch =
  fetch_params :: "(string \<times> string) list"
  seen_products :: "Product list"
  seen_limit :: int

text \<open>
  What the last render saw: the values of \<open>products\<close>, \<open>limit\<close> and \<open>isPending\<close> from
  which it built the button and the \<open>loadMore\<close> closure given to the button.
\<close>

record View =
  v_products :: "Product list"
  v_limit :: int
  v_isPending :: bool

text \<open>
  The state of the component: the two \<open>useState\<close> cells, the \<open>isPending\<close> flag of
  \<open>useTransition\<close>, the requests in flight, the alerts shown so far, and the last render.
\<close>

record State =
  st_products :: "Product list"
  st_limit :: int
  isPending :: bool
  inflight :: "Fetch list"
  alerts :: "string list"
  view :: View

definition initial :: "Props \<Rightarrow> State" where
  "initial props =
     \<lparr>st_products = initialProducts props, st_limit = initialLimit props,
      isPending = False, inflight = [], alerts = [],
      view = \<lparr>v_products = initialProducts props, v_limit = initialLimit props,
              v_isPending = False\<rparr>\<rparr>"

text \<open>\<open>const hasMore = products.length < total\<close>, as the last render computed it.\<close>

definition hasMore :: "Props \<Rightarrow> State \<Rightarrow> bool" where
  "hasMore props s = (int (length (v_products (view s))) < props_total props)"

text \<open>The alert text (Korean in the source: "an error occurred while loading the products,
  please try again").\<close>

definition alert_message :: string where
  "alert_message = ''An error occurred while loading the products. Please try again.''"

definition loadMore_params :: "Props \<Rightarrow> State \<Rightarrow> (string \<times> string) list" where
  "loadMore_params props s =
     (case props_category props of
        None \<Rightarrow> []
      | Some c \<Rightarrow> if truthy (props_category props) then [(''category'', c)] else [])
     @ [(''sort'', props_sortBy props),
        (''limit'', String_of (v_limit (view s) + 12)),
        (''offset'', String_of (int (length (v_products (view s)))))]"

text \<open>
  \<open>loadMore\<close>, the closure of the last render, up to its first \<open>await\<close>: the transition
  starts (\<open>isPending\<close> becomes true) and the request is sent. The function itself has no
  guard.
\<close>

definition loadMore :: "Props \<Rightarrow> State \<Rightarrow> State" where
  "loadMore props s =
     s\<lparr>isPending := True,
       inflight := inflight s @
         [\<lparr>fetch_params = loadMore_params props s,
           seen_products = v_products (view s), seen_limit = v_limit (view s)\<rparr>]\<rparr>"

text \<open>The outcome of \<open>fetch\<close>: it rejects, or it resolves to a response.\<close>

datatype FetchResult = Rejected | Responded HttpResponse

definition ok :: "HttpResponse \<Rightarrow> bool" where
  "ok r = (200 \<le> status r \<and> status r \<le> 299)"

text \<open>
  The rest of \<open>loadMore\<close> after the \<open>await\<close>: on an ok response with a product list the
  two cells are set from the values the closure saw; everything else ends in the
  \<open>catch\<close> block, which shows the alert.
\<close>

definition resume :: "Fetch \<Rightarrow> FetchResult \<Rightarrow> State \<Rightarrow> State" where
  "resume f r s =
     (case r of
        Rejected \<Rightarrow> s\<lparr>alerts := alerts s @ [alert_message]\<rparr>
      | Responded resp \<Rightarrow>
          if \<not> ok resp then s\<lparr>alerts := alerts s @ [alert_message]\<rparr>
          else
            (case body resp of
               ProductsJson ps t \<Rightarrow>
                 s\<lparr>st_products := seen_products f @ ps, st_limit := seen_limit f + 12\<rparr>
             | ErrorJson m \<Rightarrow> s\<lparr>alerts := alerts s @ [alert_message]\<rparr>))"


text \<open>
  What can happen to the component. A click acts on the button as the last render left
  it: the button is there when that render found \<open>hasMore\<close>, it is disabled when that
  render found \<open>isPending\<close>, and it calls the \<open>loadMore\<close> closure of that render; a click
  on a button that is absent or disabled does nothing. A render brings the view up to
  the current state. The action given to \<open>startTransition\<close> is asynchronous, and
  \<open>isPending\<close> stays true until every such action has finished: when the request number
  \<open>i\<close> in flight is answered, its handler resumes, and the transition is pending as
  long as a request is left.
\<close>

datatype Event = Click | Render | Settle nat FetchResult

fun step :: "Props \<Rightarrow> State \<Rightarrow> Event \<Rightarrow> State" where
  "step props s Click =
     (if hasMore props s \<and> \<not> v_isPending (view s) then loadMore props s else s)"
| "step props s Render =
     s\<lparr>view := \<lparr>v_products = st_products s, v_limit = st_limit s,
                 v_isPending = isPending s\<rparr>\<rparr>"
| "step props s (Settle i r) =
     (if i < length (inflight s)
      then let rest = take i (inflight s) @ drop (Suc i) (inflight s)
           in (resume (inflight s ! i) r s)\<lparr>inflight := rest, isPending := (rest \<noteq> [])\<rparr>
      else s)"

definition run :: "Props \<Rightarrow> State \<Rightarrow> Event list \<Rightarrow> State" where
  "run props s es = foldl (step props) s es"

text \<open>Event lists in which a render follows every click before the next event: after a
  click (the flag), the next event, if there is one, is a render.\<close>

fun paced_from :: "bool \<Rightarrow> Event list \<Rightarrow> bool" where
  "paced_from after_click [] = True"
| "paced_from after_click (e # es) =
     (if after_click then e = Render \<and> paced_from False es
      else paced_from (e = Click) es)"

definition paced :: "Event list \<Rightarrow> bool" where
  "paced es = paced_from False es"

text \<open>The route handler's answer to a request (the query string reaches the handler as the
  component wrote it), and a click on the button followed by that answer to the request
  it sent, if it sent one, and by the render of the new state.\<close>

definition serve :: "Env \<Rightarrow> Client \<Rightarrow> Fetch \<Rightarrow> FetchResult" where
  "serve env lib f = Responded (GET env lib (fetch_params f))"

definition click_served :: "Env \<Rightarrow> Client \<Rightarrow> Props \<Rightarrow> State \<Rightarrow> State" where
  "click_served env lib props s =
     (let s1 = step props s Click
      in case inflight s1 of
           [] \<Rightarrow> s1
         | f # fs \<Rightarrow> step props (step props s1 (Settle 0 (serve env lib f))) Render)"

section \<open>Concrete environments, clients and tables\<close>

definition env_ok :: Env where
  "env_ok = \<lparr>NEXT_PUBLIC_SUPABASE_URL = Some ''https://db.example'',
              NEXT_PUBLIC_SUPABASE_ANON_KEY = Some ''anon''\<rparr>"

definition env_missing :: Env where
  "env_missing = \<lparr>NEXT_PUBLIC_SUPABASE_URL = None,
                   NEXT_PUBLIC_SUPABASE_ANON_KEY = Some ''anon''\<rparr>"

text \<open>A client whose answers carry \<open>null\<close> for the rows and the count, without an error.\<close>

definition null_client :: Client where
  "null_client =
     \<lparr>await_rows = (\<lambda>q. Inr \<lparr>data = None, error = None, count = None\<rparr>),
      await_single = (\<lambda>q. Inr \<lparr>data = None, error = None, count = None\<rparr>)\<rparr>"

text \<open>A client whose store reports an error with the given code.\<close>

definition error_client :: "string \<Rightarrow> Client" where
  "error_client c =
     \<lparr>await_rows = (\<lambda>q. Inr \<lparr>data = None,
         error = Some \<lparr>message = Some ''relation does not exist'', details = None,
                       hint = None, code = Some c\<rparr>,
         count = None\<rparr>),
      await_single = (\<lambda>q. Inr \<lparr>data = None,
         error = Some \<lparr>message = Some ''relation does not exist'', details = None,
                       hint = None, code = Some c\<rparr>,
         count = None\<rparr>)\<rparr>"

text \<open>A client whose requests reject.\<close>

definition throwing_client :: Client where
  "throwing_client =
     \<lparr>await_rows = (\<lambda>q. Inl (Error ''fetch failed'')),
      await_single = (\<lambda>q. Inl (Error ''fetch failed''))\<rparr>"

text \<open>Sample rows: row \<open>n\<close> was created on day \<open>31 - n\<close> of the month, so a smaller \<open>n\<close>
  is newer.\<close>

definition two_digits :: "nat \<Rightarrow> string" where
  "two_digits n = [digit_char (n div 10), digit_char (n mod 10)]"

definition sample_product :: "nat \<Rightarrow> Product" where
  "sample_product n =
     \<lparr>p_id = digits n, p_name = ''item'', p_description = None, p_price = 1000 * int n,
      p_category = Some (if even n then ''bath'' else ''shower''), p_stock_quantity = 5,
      p_is_active = True, p_created_at = ''2025-01-'' @ two_digits (31 - n),
      p_updated_at = ''2025-02-01''\<rparr>"

text \<open>Three rows, the middle one inactive.\<close>

definition small_table :: "Product list" where
  "small_table =
     [sample_product 0, (sample_product 1)\<lparr>p_is_active := False\<rparr>, sample_product 2]"

text \<open>Thirty active rows, newest first.\<close>

definition table30 :: "Product list" where
  "table30 = map sample_product [0..<30]"

text \<open>The props the listing page passes after loading the first twelve of thirty rows.\<close>

definition props30 :: Props where
  "props30 =
     \<lparr>initialProducts = map sample_product [0..<12], props_total = 30,
      props_category = None, props_sortBy = ''newest'', initialLimit = 12\<rparr>"

section \<open>Basic facts\<close>

lemma createClient_ok:
  "truthy (NEXT_PUBLIC_SUPABASE_URL env) \<Longrightarrow> truthy (NEXT_PUBLIC_SUPABASE_ANON_KEY env)
     \<Longrightarrow> createClient env lib = Inr lib"
  by (simp add: createClient_def)

section \<open>The sort mapping\<close>

lemma sort_switch_order:
  "q_order (sort_switch s q) = q_order q @
     [if s = ''price_asc'' then (''price'', True)
      else if s = ''price_desc'' then (''price'', False)
      else if s = ''oldest'' then (''created_at'', True)
      else if s = ''name_asc'' then (''name'', True)
      else (''created_at'', False)]"
  by (simp add: sort_switch_def order_by_def)

lemma sort_switch_fallback:
  "s \<notin> {''price_asc'', ''price_desc'', ''newest'', ''oldest'', ''name_asc''} \<Longrightarrow>
     sort_switch s q = sort_switch ''newest'' q"
  by (simp add: sort_switch_def)

lemma pagination_query_order:
  "q_order (getProductsWithPagination_query cat (Some s) lim off) =
     [if s = ''price_asc'' then (''price'', True)
      else if s = ''price_desc'' then (''price'', False)
      else if s = ''oldest'' then (''created_at'', True)
      else if s = ''name_asc'' then (''name'', True)
      else (''created_at'', False)]"
  by (cases cat)
     (simp_all add: getProductsWithPagination_query_def Let_def range_of_def sort_switch_order
        eq_filter_def from_select_def)

lemma pagination_query_fallback:
  "s \<notin> {''price_asc'', ''price_desc'', ''newest'', ''oldest'', ''name_asc''} \<Longrightarrow>
     getProductsWithPagination_query cat (Some s) lim off =
     getProductsWithPagination_query cat (Some ''newest'') lim off"
  by (simp add: getProductsWithPagination_query_def Let_def sort_switch_fallback)

text \<open>
  Claim C5. The sort mapping of \<open>getProductsWithPagination\<close> sends each of the five sort
  options to one (column, direction) pair: \<open>price_asc\<close> to price ascending, \<open>price_desc\<close>
  to price descending, \<open>newest\<close> to \<open>created_at\<close> descending, \<open>oldest\<close> to \<open>created_at\<close>
  ascending, \<open>name_asc\<close> to name ascending. Every \<open>sortBy\<close> value gives exactly one order
  clause, and a value outside the five options builds the same query, and so gives the
  same result, as \<open>newest\<close>.
\<close>

theorem sort_mapping:
  "q_order (getProductsWithPagination_query cat (Some ''price_asc'') lim off) = [(''price'', True)]
   \<and> q_order (getProductsWithPagination_query cat (Some ''price_desc'') lim off) = [(''price'', False)]
   \<and> q_order (getProductsWithPagination_query cat (Some ''newest'') lim off) = [(''created_at'', False)]
   \<and> q_order (getProductsWithPagination_query cat (Some ''oldest'') lim off) = [(''created_at'', True)]
   \<and> q_order (getProductsWithPagination_query cat (Some ''name_asc'') lim off) = [(''name'', True)]
   \<and> (\<exists>!cd. q_order (getProductsWithPagination_query cat (Some s) lim off) = [cd])
   \<and> (s \<notin> {''price_asc'', ''price_desc'', ''newest'', ''oldest'', ''name_asc''} \<longrightarrow>
        getProductsWithPagination_query cat (Some s) lim off =
          getProductsWithPagination_query cat (Some ''newest'') lim off
        \<and> getProductsWithPagination env lib cat (Some s) lim off =
          getProductsWithPagination env lib cat (Some ''newest'') lim off)"
proof -
  have uniq: "\<exists>!cd. q_order (getProductsWithPagination_query cat (Some s) lim off) = [cd]"
    unfolding pagination_query_order by blast
  have fb: "getProductsWithPagination env lib cat (Some s) lim off =
          getProductsWithPagination env lib cat (Some ''newest'') lim off"
    if h: "s \<notin> {''price_asc'', ''price_desc'', ''newest'', ''oldest'', ''name_asc''}"
    unfolding getProductsWithPagination_def pagination_query_fallback[OF h] ..
  show ?thesis
    using uniq fb pagination_query_fallback[of s cat lim off]
    by (simp add: pagination_query_order)
qed

theorem sort_mapping_witness:
  "''popular'' \<notin> {''price_asc'', ''price_desc'', ''newest'', ''oldest'', ''name_asc''}
   \<and> getProductsWithPagination_query (Some ''bath'') (Some ''popular'') (Some (Num 12)) (Some (Num 0)) =
       getProductsWithPagination_query (Some ''bath'') (Some ''newest'') (Some (Num 12)) (Some (Num 0))
   \<and> q_order (getProductsWithPagination_query (Some ''bath'') (Some ''popular'') (Some (Num 12)) (Some (Num 0)))
       = [(''created_at'', False)]"
  using sort_mapping [of "Some ''bath''" "Some (Num 12)" "Some (Num 0)" "''popular''" env_ok null_client]
  by simp

section \<open>Results on the success path\<close>

text \<open>
  Claim C10. When the store answers without an error, the query functions return
  well-formed results even if the answer carries \<open>null\<close> for the rows or the count:
  \<open>getProductsWithPagination\<close> returns the rows, or the empty list for \<open>null\<close>, and the
  count, or \<open>0\<close> for \<open>null\<close>; \<open>getProducts\<close>, \<open>getProductsByCategory\<close> and
  \<open>getFeaturedProducts\<close> return the rows, or the empty list for \<open>null\<close>.
\<close>

theorem null_coercion:
  assumes "truthy (NEXT_PUBLIC_SUPABASE_URL env)" and "truthy (NEXT_PUBLIC_SUPABASE_ANON_KEY env)"
  shows
  "(\<forall>r. await_rows lib (getProductsWithPagination_query cat sortBy lim off) = Inr r \<and> error r = None \<longrightarrow>
      getProductsWithPagination env lib cat sortBy lim off =
        Inr \<lparr>products = (case data r of None \<Rightarrow> [] | Some xs \<Rightarrow> xs),
             total = (case count r of None \<Rightarrow> 0 | Some n \<Rightarrow> n)\<rparr>)
   \<and> (\<forall>r. await_rows lib getProducts_query = Inr r \<and> error r = None \<longrightarrow>
      getProducts env lib = Inr (case data r of None \<Rightarrow> [] | Some xs \<Rightarrow> xs))
   \<and> (\<forall>r. await_rows lib (getProductsByCategory_query c) = Inr r \<and> error r = None \<longrightarrow>
      getProductsByCategory env lib c = Inr (case data r of None \<Rightarrow> [] | Some xs \<Rightarrow> xs))
   \<and> (\<forall>r. await_rows lib (getFeaturedProducts_query (dflt (Num 6) n)) = Inr r \<and> error r = None \<longrightarrow>
      getFeaturedProducts env lib n = Inr (case data r of None \<Rightarrow> [] | Some xs \<Rightarrow> xs))"
proof -
  have e: "or_empty d = (case d of None \<Rightarrow> [] | Some xs \<Rightarrow> xs)" for d :: "Product list option"
    by (cases d) simp_all
  have z: "or_zero k = (case k of None \<Rightarrow> 0 | Some n \<Rightarrow> n)" for k
    by (cases k) simp_all
  have c: "createClient env lib = Inr lib"
    using assms by (rule createClient_ok)
  have p1: "getProductsWithPagination env lib cat sortBy lim off =
        Inr \<lparr>products = (case data r of None \<Rightarrow> [] | Some xs \<Rightarrow> xs),
             total = (case count r of None \<Rightarrow> 0 | Some n \<Rightarrow> n)\<rparr>"
    if "await_rows lib (getProductsWithPagination_query cat sortBy lim off) = Inr r" "error r = None" for r
    using that by (simp add: getProductsWithPagination_def c e z)
  have p2: "getProducts env lib = Inr (case data r of None \<Rightarrow> [] | Some xs \<Rightarrow> xs)"
    if "await_rows lib getProducts_query = Inr r" "error r = None" for r
    using that by (simp add: getProducts_def c e)
  have p3: "getProductsByCategory env lib c = Inr (case data r of None \<Rightarrow> [] | Some xs \<Rightarrow> xs)"
    if "await_rows lib (getProductsByCategory_query c) = Inr r" "error r = None" for r
    using that by (simp add: getProductsByCategory_def c e)
  have p4: "getFeaturedProducts env lib n = Inr (case data r of None \<Rightarrow> [] | Some xs \<Rightarrow> xs)"
    if "await_rows lib (getFeaturedProducts_query (dflt (Num 6) n)) = Inr r" "error r = None" for r
    using that assms by (simp add: getFeaturedProducts_def getFeaturedProducts_try_def c e)
  show ?thesis using p1 p2 p3 p4 by blast
qed

theorem null_coercion_witness:
  "truthy (NEXT_PUBLIC_SUPABASE_URL env_ok) \<and> truthy (NEXT_PUBLIC_SUPABASE_ANON_KEY env_ok)
   \<and> await_rows null_client (getProductsWithPagination_query None None None None)
        = Inr \<lparr>data = None, error = None, count = None\<rparr>
   \<and> getProductsWithPagination env_ok null_client None None None None = Inr \<lparr>products = [], total = 0\<rparr>
   \<and> getProducts env_ok null_client = Inr []
   \<and> getProductsByCategory env_ok null_client ''bath'' = Inr []
   \<and> getFeaturedProducts env_ok null_client None = Inr []"
proof -
  have u: "truthy (NEXT_PUBLIC_SUPABASE_URL env_ok)" by (simp add: env_ok_def)
  have k: "truthy (NEXT_PUBLIC_SUPABASE_ANON_KEY env_ok)" by (simp add: env_ok_def)
  show ?thesis
    using u k null_coercion [OF u k, of null_client None None None None "''bath''" None]
    by (simp add: null_client_def)
qed

section \<open>The failure contract of getFeaturedProducts\<close>

text \<open>
  Claim C3. \<open>getFeaturedProducts\<close> never passes an error to its caller: for every
  environment, client and limit it returns a list, and it returns the empty list when
  the connection configuration is missing, when the store reports an error, and when
  the request raises an exception.
\<close>

theorem featured_never_throws:
  "(\<exists>xs. getFeaturedProducts env lib n = Inr xs)
   \<and> (\<not> truthy (NEXT_PUBLIC_SUPABASE_URL env) \<or> \<not> truthy (NEXT_PUBLIC_SUPABASE_ANON_KEY env) \<longrightarrow>
        getFeaturedProducts env lib n = Inr [])
   \<and> (\<forall>r. await_rows lib (getFeaturedProducts_query (dflt (Num 6) n)) = Inr r \<and> error r \<noteq> None \<longrightarrow>
        getFeaturedProducts env lib n = Inr [])
   \<and> (\<forall>e. await_rows lib (getFeaturedProducts_query (dflt (Num 6) n)) = Inl e \<longrightarrow>
        getFeaturedProducts env lib n = Inr [])"
proof -
  have a: "\<exists>xs. getFeaturedProducts env lib n = Inr xs"
    by (simp add: getFeaturedProducts_def split: sum.splits)
  have b: "getFeaturedProducts env lib n = Inr []"
    if "\<not> truthy (NEXT_PUBLIC_SUPABASE_URL env) \<or> \<not> truthy (NEXT_PUBLIC_SUPABASE_ANON_KEY env)"
    using that by (auto simp: getFeaturedProducts_def getFeaturedProducts_try_def)
  have c: "getFeaturedProducts env lib n = Inr []"
    if "await_rows lib (getFeaturedProducts_query (dflt (Num 6) n)) = Inr r" "error r \<noteq> None" for r
    using that
    by (auto simp: getFeaturedProducts_def getFeaturedProducts_try_def createClient_def)
  have d: "getFeaturedProducts env lib n = Inr []"
    if "await_rows lib (getFeaturedProducts_query (dflt (Num 6) n)) = Inl e" for e
    using that
    by (auto simp: getFeaturedProducts_def getFeaturedProducts_try_def createClient_def)
  show ?thesis using a b c d by blast
qed

theorem featured_never_throws_witness:
  "\<not> truthy (NEXT_PUBLIC_SUPABASE_URL env_missing)
   \<and> getFeaturedProducts env_missing throwing_client None = Inr []
   \<and> (\<exists>r. await_rows (error_client ''42P01'') (getFeaturedProducts_query (Num 6)) = Inr r \<and> error r \<noteq> None)
   \<and> getFeaturedProducts env_ok (error_client ''42P01'') None = Inr []
   \<and> await_rows throwing_client (getFeaturedProducts_query (Num 6)) = Inl (Error ''fetch failed'')
   \<and> getFeaturedProducts env_ok throwing_client None = Inr []"
  using featured_never_throws [of env_missing throwing_client None]
        featured_never_throws [of env_ok "error_client ''42P01''" None]
        featured_never_throws [of env_ok throwing_client None]
  by (simp add: env_missing_def error_client_def throwing_client_def)

section \<open>What the data store answers\<close>

lemma set_insert_row: "set (insert_row cl x ys) = insert x (set ys)"
  by (induction ys) auto

lemma set_sort_clause: "set (sort_clause cl xs) = set xs"
  by (induction xs) (simp_all add: sort_clause_def set_insert_row)

lemma set_sort_rows: "set (sort_rows cls xs) = set xs"
  by (induction cls) (simp_all add: sort_rows_def set_sort_clause)

lemma set_rows_in_range: "set (rows_in_range lo hi xs) \<subseteq> set xs"
  by (auto simp: rows_in_range_def)

lemma set_window: "set (window q xs) \<subseteq> set xs"
proof -
  have "set (rows_in_range a b (rows_in_range c d xs)) \<subseteq> set xs" for a b c d
    using set_rows_in_range[of a b "rows_in_range c d xs"] set_rows_in_range[of c d xs] by blast
  then show ?thesis
    using set_rows_in_range[of _ _ xs]
    by (auto simp: window_def Let_def split: option.splits)
qed

lemma answer_rows_matches: "p \<in> set (answer_rows tbl q) \<Longrightarrow> matches (q_filters q) p"
  using set_window[of q "sort_rows (q_order q) (selected tbl q)"]
  by (auto simp: answer_rows_def set_sort_rows selected_def)

lemma matches_column: "matches fs p \<Longrightarrow> (c, v) \<in> set fs \<Longrightarrow> column c p = v"
  by (auto simp: matches_def list_all_iff)

lemma column_is_active: "column ''is_active'' p = VBool b \<longleftrightarrow> p_is_active p = b"
  by (simp add: column_def)

lemma answer_rows_active:
  "(''is_active'', VBool True) \<in> set (q_filters q) \<Longrightarrow> p \<in> set (answer_rows tbl q) \<Longrightarrow> p_is_active p"
  using answer_rows_matches[of p tbl q] matches_column[of "q_filters q" p "''is_active''" "VBool True"]
  by (simp add: column_is_active)

lemma getProducts_query_active: "(''is_active'', VBool True) \<in> set (q_filters getProducts_query)"
  by (simp add: getProducts_query_def order_by_def eq_filter_def from_select_def)
lemma getProductsByCategory_query_active: "(''is_active'', VBool True) \<in> set (q_filters (getProductsByCategory_query c))"
  by (simp add: getProductsByCategory_query_def order_by_def eq_filter_def from_select_def)
lemma getFeaturedProducts_query_active: "(''is_active'', VBool True) \<in> set (q_filters (getFeaturedProducts_query n))"
  by (simp add: getFeaturedProducts_query_def limit_to_def order_by_def eq_filter_def from_select_def)
lemma pagination_query_filters:
  "q_filters (getProductsWithPagination_query cat sortBy lim off) =
     (''is_active'', VBool True) # (case cat of None \<Rightarrow> [] | Some c \<Rightarrow> if c = [] then [] else [(''category'', VStr c)])"
  by (simp add: getProductsWithPagination_query_def Let_def range_of_def sort_switch_def order_by_def eq_filter_def from_select_def
       split: option.splits)
lemma getProductsWithPagination_query_active: "(''is_active'', VBool True) \<in> set (q_filters (getProductsWithPagination_query cat sortBy lim off))"
  by (simp add: pagination_query_filters)
lemma getProductById_query_active: "(''is_active'', VBool True) \<in> set (q_filters (getProductById_query i))"
  by (simp add: getProductById_query_def single_row_def eq_filter_def from_select_def)

lemma await_rows_store:
  "await_rows (table_store tbl) q = Inr \<lparr>data = Some (answer_rows tbl q), error = None,
         count = (if q_count q = Some ''exact'' then Some (length (selected tbl q)) else None)\<rparr>"
  by (simp add: table_store_def)

lemma createClient_cases: "createClient env lib = Inr lib \<or> (\<exists>e. createClient env lib = Inl e)"
  by (simp add: createClient_def Let_def)



lemma filter_upt_range:
  "filter (\<lambda>i. a \<le> i \<and> i < b) [0..<n] = [a..<min b n]"
proof (induction n)
  case 0
  then show ?case by simp
next
  case (Suc n)
  show ?case
  proof (cases "a \<le> n \<and> n < b")
    case True
    then have "min b (Suc n) = Suc n" and "min b n = n"
      by auto
    with True Suc show ?thesis
      by simp
  next
    case False
    then have "[a..<min b (Suc n)] = [a..<min b n]"
      by (auto simp: min_def)
    with False Suc show ?thesis
      by auto
  qed
qed

lemma map_nth_upt_take_drop: "b \<le> length xs \<Longrightarrow> map (nth xs) [a..<b] = take (b - a) (drop a xs)"
  by (rule nth_equalityI) auto

lemma rows_in_range_take_drop:
  "rows_in_range (Num (int off)) (js_sub (js_add (Num (int off)) (Num (int lim))) (Num 1)) xs
     = take lim (drop off xs)"
proof -
  have "(\<lambda>i. js_le (Num (int off)) (Num (int i)) \<and> js_le (Num (int i)) (js_sub (js_add (Num (int off)) (Num (int lim))) (Num 1)))
        = (\<lambda>i. off \<le> i \<and> i < off + lim)"
    by (auto simp: fun_eq_iff)
  then have "rows_in_range (Num (int off)) (js_sub (js_add (Num (int off)) (Num (int lim))) (Num 1)) xs
     = map (nth xs) [off..<min (off + lim) (length xs)]"
    by (simp add: rows_in_range_def filter_upt_range)
  also have "\<dots> = take (min (off + lim) (length xs) - off) (drop off xs)"
    by (rule map_nth_upt_take_drop) simp
  also have "\<dots> = take lim (drop off xs)"
    by (cases "off + lim \<le> length xs") (auto simp: min_def)
  finally show ?thesis .
qed


lemma matches_pagination:
  "matches (q_filters (getProductsWithPagination_query cat sortBy lim off)) p =
     (p_is_active p \<and> (case cat of None \<Rightarrow> True | Some c \<Rightarrow> c = [] \<or> p_category p = Some c))"
  by (cases "p_category p")
     (auto simp: pagination_query_filters matches_def column_def split: option.splits)

lemma pagination_query_range:
  "q_range (getProductsWithPagination_query cat sortBy lim off) =
     Some (dflt (Num 0) off, js_sub (js_add (dflt (Num 0) off) (dflt (Num 12) lim)) (Num 1))"
  by (simp add: getProductsWithPagination_query_def Let_def range_of_def)

lemma pagination_query_count:
  "q_count (getProductsWithPagination_query cat sortBy lim off) = Some ''exact''"
  by (simp add: getProductsWithPagination_query_def Let_def range_of_def sort_switch_def
        order_by_def eq_filter_def from_select_def split: option.splits)

lemma pagination_query_limit:
  "q_limit (getProductsWithPagination_query cat sortBy lim off) = None"
  by (simp add: getProductsWithPagination_query_def Let_def range_of_def sort_switch_def
        order_by_def eq_filter_def from_select_def split: option.splits)

lemma pagination_on_store:
  assumes "truthy (NEXT_PUBLIC_SUPABASE_URL env)" and "truthy (NEXT_PUBLIC_SUPABASE_ANON_KEY env)"
  shows "getProductsWithPagination env (table_store tbl) cat sortBy lim off =
     Inr \<lparr>products =
            rows_in_range (dflt (Num 0) off)
              (js_sub (js_add (dflt (Num 0) off) (dflt (Num 12) lim)) (Num 1))
              (sort_rows (q_order (getProductsWithPagination_query cat sortBy lim off))
                (filter (\<lambda>p. p_is_active p \<and>
                    (case cat of None \<Rightarrow> True | Some c \<Rightarrow> c = [] \<or> p_category p = Some c)) tbl)),
          total = length (filter (\<lambda>p. p_is_active p \<and>
                    (case cat of None \<Rightarrow> True | Some c \<Rightarrow> c = [] \<or> p_category p = Some c)) tbl)\<rparr>"
proof -
  let ?q = "getProductsWithPagination_query cat sortBy lim off"
  have sel: "selected tbl ?q = filter (\<lambda>p. p_is_active p \<and>
                    (case cat of None \<Rightarrow> True | Some c \<Rightarrow> c = [] \<or> p_category p = Some c)) tbl"
    unfolding selected_def using matches_pagination[of cat sortBy lim off] by presburger
  have win: "window ?q xs = rows_in_range (dflt (Num 0) off)
              (js_sub (js_add (dflt (Num 0) off) (dflt (Num 12) lim)) (Num 1)) xs" for xs
    by (simp add: window_def pagination_query_range pagination_query_limit)
  show ?thesis
    by (simp add: getProductsWithPagination_def createClient_ok[OF assms] await_rows_store
          pagination_query_count answer_rows_def win sel)
qed

section \<open>Only active products are read\<close>

text \<open>
  Claim C7. Every read operation of the query layer (\<open>getProducts\<close>,
  \<open>getProductsByCategory\<close>, \<open>getFeaturedProducts\<close>, \<open>getProductsWithPagination\<close>,
  \<open>getProductById\<close>) puts the filter \<open>is_active = true\<close> into its query, and no
  operation returns an inactive product from the store.
\<close>

theorem only_active_rows:
  "(''is_active'', VBool True) \<in> set (q_filters getProducts_query)
   \<and> (''is_active'', VBool True) \<in> set (q_filters (getProductsByCategory_query c))
   \<and> (''is_active'', VBool True) \<in> set (q_filters (getFeaturedProducts_query n))
   \<and> (''is_active'', VBool True) \<in> set (q_filters (getProductsWithPagination_query cat sortBy lim off))
   \<and> (''is_active'', VBool True) \<in> set (q_filters (getProductById_query ident))
   \<and> (\<forall>xs. getProducts env (table_store tbl) = Inr xs \<longrightarrow> (\<forall>p \<in> set xs. p_is_active p))
   \<and> (\<forall>xs. getProductsByCategory env (table_store tbl) c = Inr xs \<longrightarrow> (\<forall>p \<in> set xs. p_is_active p))
   \<and> (\<forall>xs. getFeaturedProducts env (table_store tbl) m = Inr xs \<longrightarrow> (\<forall>p \<in> set xs. p_is_active p))
   \<and> (\<forall>r. getProductsWithPagination env (table_store tbl) cat sortBy lim off = Inr r \<longrightarrow>
          (\<forall>p \<in> set (products r). p_is_active p))
   \<and> (\<forall>p. getProductById env (table_store tbl) ident = Inr (Some p) \<longrightarrow> p_is_active p)"
proof -
  note act = answer_rows_active
  have a: "\<forall>p \<in> set xs. p_is_active p" if "getProducts env (table_store tbl) = Inr xs" for xs
    using that createClient_cases[of env "table_store tbl"] act[OF getProducts_query_active, of _ tbl]
    by (auto simp: getProducts_def await_rows_store)
  have b: "\<forall>p \<in> set xs. p_is_active p" if "getProductsByCategory env (table_store tbl) c = Inr xs" for xs
    using that createClient_cases[of env "table_store tbl"] act[OF getProductsByCategory_query_active, of _ tbl c]
    by (auto simp: getProductsByCategory_def await_rows_store)
  have c: "\<forall>p \<in> set xs. p_is_active p" if "getFeaturedProducts env (table_store tbl) m = Inr xs" for xs
    using that createClient_cases[of env "table_store tbl"] act[OF getFeaturedProducts_query_active, of _ tbl "dflt (Num 6) m"]
    by (auto simp: getFeaturedProducts_def getFeaturedProducts_try_def await_rows_store Let_def
          split: if_splits)
  have d: "\<forall>p \<in> set (products r). p_is_active p"
    if "getProductsWithPagination env (table_store tbl) cat sortBy lim off = Inr r" for r
    using that createClient_cases[of env "table_store tbl"] act[OF getProductsWithPagination_query_active, of _ tbl cat sortBy lim off]
    by (auto simp: getProductsWithPagination_def await_rows_store)
  have e: "p_is_active p" if "getProductById env (table_store tbl) ident = Inr (Some p)" for p
  proof -
    from that have "answer_rows tbl (getProductById_query ident) = [p]"
      using createClient_cases[of env "table_store tbl"]
      by (auto simp: getProductById_def table_store_def no_row_error_def split: list.splits if_splits)
    then show ?thesis using act[OF getProductById_query_active, of p tbl ident] by simp
  qed
  show ?thesis using getProducts_query_active getProductsByCategory_query_active getFeaturedProducts_query_active getProductsWithPagination_query_active getProductById_query_active a b c d e by blast
qed


theorem only_active_rows_witness:
  "getProducts env_ok (table_store small_table) = Inr [sample_product 0, sample_product 2]
   \<and> p_is_active (sample_product 0) \<and> p_is_active (sample_product 2)
   \<and> \<not> p_is_active (small_table ! 1)
   \<and> getProductById env_ok (table_store small_table) ''1'' = Inr None
   \<and> getProductById env_ok (table_store small_table) ''2'' = Inr (Some (sample_product 2))"
proof -
  have e1: "getProducts env_ok (table_store small_table) = Inr [sample_product 0, sample_product 2]"
    by code_simp
  have e2: "\<not> p_is_active (small_table ! 1)"
    by (simp add: small_table_def)
  have e3: "getProductById env_ok (table_store small_table) ''1'' = Inr None"
    by code_simp
  have e4: "getProductById env_ok (table_store small_table) ''2'' = Inr (Some (sample_product 2))"
    by code_simp
  show ?thesis
    using e1 e2 e3 e4
      only_active_rows [of "''bath''" "Num 6" None None None None "''2''" env_ok small_table None]
    by simp
qed

section \<open>Filter, range and count of the paginated query\<close>

text \<open>
  Claim C2. For every call of \<open>getProductsWithPagination\<close> the filter requires
  \<open>is_active = true\<close> and, exactly when a non-empty category is given, equality of the
  category; the row range is the inclusive range from \<open>offset\<close> to
  \<open>offset + limit - 1\<close> of the filtered and sorted rows (for natural numbers \<open>limit\<close>
  rows after skipping \<open>offset\<close>); and the total is the number of all filtered rows,
  counted before the range is applied, so it does not depend on limit or offset.
\<close>

theorem pagination_semantics:
  assumes "truthy (NEXT_PUBLIC_SUPABASE_URL env)" and "truthy (NEXT_PUBLIC_SUPABASE_ANON_KEY env)"
  shows
  "q_filters (getProductsWithPagination_query cat sortBy lim off) =
       (''is_active'', VBool True) #
       (case cat of None \<Rightarrow> [] | Some c \<Rightarrow> if c = [] then [] else [(''category'', VStr c)])
   \<and> q_range (getProductsWithPagination_query cat sortBy lim off) =
       Some (dflt (Num 0) off, js_sub (js_add (dflt (Num 0) off) (dflt (Num 12) lim)) (Num 1))
   \<and> q_count (getProductsWithPagination_query cat sortBy lim off) = Some ''exact''
   \<and> getProductsWithPagination env (table_store tbl) cat sortBy lim off =
       Inr \<lparr>products =
              rows_in_range (dflt (Num 0) off)
                (js_sub (js_add (dflt (Num 0) off) (dflt (Num 12) lim)) (Num 1))
                (sort_rows (q_order (getProductsWithPagination_query cat sortBy lim off))
                  (filter (\<lambda>p. p_is_active p \<and>
                      (case cat of None \<Rightarrow> True | Some c \<Rightarrow> c = [] \<or> p_category p = Some c)) tbl)),
            total = length (filter (\<lambda>p. p_is_active p \<and>
                      (case cat of None \<Rightarrow> True | Some c \<Rightarrow> c = [] \<or> p_category p = Some c)) tbl)\<rparr>
   \<and> getProductsWithPagination env (table_store tbl) cat sortBy (Some (Num (int l))) (Some (Num (int k))) =
       Inr \<lparr>products =
              take l (drop k
                (sort_rows (q_order (getProductsWithPagination_query cat sortBy
                                       (Some (Num (int l))) (Some (Num (int k)))))
                  (filter (\<lambda>p. p_is_active p \<and>
                      (case cat of None \<Rightarrow> True | Some c \<Rightarrow> c = [] \<or> p_category p = Some c)) tbl))),
            total = length (filter (\<lambda>p. p_is_active p \<and>
                      (case cat of None \<Rightarrow> True | Some c \<Rightarrow> c = [] \<or> p_category p = Some c)) tbl)\<rparr>
   \<and> map_sum id total (getProductsWithPagination env (table_store tbl) cat sortBy lim off) =
       map_sum id total (getProductsWithPagination env (table_store tbl) cat sortBy lim' off')"
proof -
  have ord: "q_order (getProductsWithPagination_query cat sortBy a b) =
             q_order (getProductsWithPagination_query cat sortBy lim off)" for a b
    by (simp add: getProductsWithPagination_query_def Let_def range_of_def sort_switch_def
        order_by_def eq_filter_def from_select_def split: option.splits)
  have td: "getProductsWithPagination env (table_store tbl) cat sortBy (Some (Num (int l))) (Some (Num (int k))) =
       Inr \<lparr>products =
              take l (drop k
                (sort_rows (q_order (getProductsWithPagination_query cat sortBy
                                       (Some (Num (int l))) (Some (Num (int k)))))
                  (filter (\<lambda>p. p_is_active p \<and>
                      (case cat of None \<Rightarrow> True | Some c \<Rightarrow> c = [] \<or> p_category p = Some c)) tbl))),
            total = length (filter (\<lambda>p. p_is_active p \<and>
                      (case cat of None \<Rightarrow> True | Some c \<Rightarrow> c = [] \<or> p_category p = Some c)) tbl)\<rparr>"
    unfolding pagination_on_store[OF assms]
    by (simp add: rows_in_range_take_drop[of k l, simplified])
  have indep: "map_sum id total (getProductsWithPagination env (table_store tbl) cat sortBy lim off) =
       map_sum id total (getProductsWithPagination env (table_store tbl) cat sortBy lim' off')"
    unfolding pagination_on_store[OF assms] by simp
  show ?thesis
    using pagination_query_filters[of cat sortBy lim off] pagination_query_range[of cat sortBy lim off]
      pagination_query_count[of cat sortBy lim off] pagination_on_store[OF assms, of tbl cat sortBy lim off]
      td indep
    by blast
qed


theorem pagination_semantics_witness:
  "truthy (NEXT_PUBLIC_SUPABASE_URL env_ok) \<and> truthy (NEXT_PUBLIC_SUPABASE_ANON_KEY env_ok)
   \<and> q_filters (getProductsWithPagination_query (Some ''bath'') (Some ''price_desc'') (Some (Num 1)) (Some (Num 1)))
       = [(''is_active'', VBool True), (''category'', VStr ''bath'')]
   \<and> q_range (getProductsWithPagination_query (Some ''bath'') (Some ''price_desc'') (Some (Num 1)) (Some (Num 1)))
       = Some (Num 1, Num 1)
   \<and> getProductsWithPagination env_ok (table_store small_table) (Some ''bath'') (Some ''price_desc'')
         (Some (Num 1)) (Some (Num 1)) = Inr \<lparr>products = [sample_product 0], total = 2\<rparr>
   \<and> getProductsWithPagination env_ok (table_store small_table) (Some ''bath'') (Some ''price_desc'')
         (Some (Num 5)) (Some (Num 0)) = Inr \<lparr>products = [sample_product 2, sample_product 0], total = 2\<rparr>"
proof -
  have u: "truthy (NEXT_PUBLIC_SUPABASE_URL env_ok)" by (simp add: env_ok_def)
  have k: "truthy (NEXT_PUBLIC_SUPABASE_ANON_KEY env_ok)" by (simp add: env_ok_def)
  have e1: "getProductsWithPagination env_ok (table_store small_table) (Some ''bath'') (Some ''price_desc'')
         (Some (Num 1)) (Some (Num 1)) = Inr \<lparr>products = [sample_product 0], total = 2\<rparr>"
    by code_simp
  have e2: "getProductsWithPagination env_ok (table_store small_table) (Some ''bath'') (Some ''price_desc'')
         (Some (Num 5)) (Some (Num 0)) = Inr \<lparr>products = [sample_product 2, sample_product 0], total = 2\<rparr>"
    by code_simp
  show ?thesis
    using u k e1 e2
      pagination_semantics [OF u k, of "Some ''bath''" "Some ''price_desc''" "Some (Num 1)" "Some (Num 1)"
        small_table 1 1 "Some (Num 5)" "Some (Num 0)"]
    by simp
qed

section \<open>Not found versus failure in getProductById\<close>

lemma getProductById_cases:
  "getProductById env lib ident =
     (if \<not> truthy (NEXT_PUBLIC_SUPABASE_URL env) \<or> \<not> truthy (NEXT_PUBLIC_SUPABASE_ANON_KEY env)
      then Inl (Error missing_env_message)
      else (case await_single lib (getProductById_query ident) of
              Inl x \<Rightarrow> Inl x
            | Inr r \<Rightarrow>
                (case error r of
                   Some err \<Rightarrow> if code err = Some ''PGRST116'' then Inr None
                               else Inl (Error load_error_message)
                 | None \<Rightarrow> Inr (data r))))"
  by (simp add: getProductById_def createClient_def Let_def)

text \<open>
  Claim C6, as the code has it. For every identifier, \<open>getProductById\<close> returns \<open>null\<close>
  exactly when the configuration is present, the request resolves, and the store either
  gives its "no row" signal (error code \<open>PGRST116\<close>) or answers without an error and
  without a row. It raises an error when the configuration is missing, when the request
  rejects, and for every other error of the store, and it returns the row when the answer
  carries one; so \<open>null\<close> and an error are never the same result. The store answers with
  the signal when no active row has the identifier.
\<close>

theorem byid_null_iff_no_row:
  "(getProductById env lib ident = Inr None \<longleftrightarrow>
      truthy (NEXT_PUBLIC_SUPABASE_URL env) \<and> truthy (NEXT_PUBLIC_SUPABASE_ANON_KEY env)
      \<and> (\<exists>r. await_single lib (getProductById_query ident) = Inr r
            \<and> ((\<exists>e. error r = Some e \<and> code e = Some ''PGRST116'')
                \<or> (error r = None \<and> data r = None))))
   \<and> (\<not> (truthy (NEXT_PUBLIC_SUPABASE_URL env) \<and> truthy (NEXT_PUBLIC_SUPABASE_ANON_KEY env)) \<longrightarrow>
        getProductById env lib ident = Inl (Error missing_env_message))
   \<and> (\<forall>x. truthy (NEXT_PUBLIC_SUPABASE_URL env) \<and> truthy (NEXT_PUBLIC_SUPABASE_ANON_KEY env)
          \<and> await_single lib (getProductById_query ident) = Inl x \<longrightarrow>
        getProductById env lib ident = Inl x)
   \<and> (\<forall>r e. truthy (NEXT_PUBLIC_SUPABASE_URL env) \<and> truthy (NEXT_PUBLIC_SUPABASE_ANON_KEY env)
          \<and> await_single lib (getProductById_query ident) = Inr r
          \<and> error r = Some e \<and> code e \<noteq> Some ''PGRST116'' \<longrightarrow>
        getProductById env lib ident = Inl (Error load_error_message))
   \<and> (\<forall>r p. truthy (NEXT_PUBLIC_SUPABASE_URL env) \<and> truthy (NEXT_PUBLIC_SUPABASE_ANON_KEY env)
          \<and> await_single lib (getProductById_query ident) = Inr r
          \<and> error r = None \<and> data r = Some p \<longrightarrow>
        getProductById env lib ident = Inr (Some p))
   \<and> (truthy (NEXT_PUBLIC_SUPABASE_URL env) \<and> truthy (NEXT_PUBLIC_SUPABASE_ANON_KEY env)
        \<and> (\<forall>p \<in> set tbl. \<not> (p_id p = ident \<and> p_is_active p)) \<longrightarrow>
        getProductById env (table_store tbl) ident = Inr None)"
proof -
  let ?cfg = "truthy (NEXT_PUBLIC_SUPABASE_URL env) \<and> truthy (NEXT_PUBLIC_SUPABASE_ANON_KEY env)"
  let ?q = "getProductById_query ident"
  note g = getProductById_cases[of env lib ident]
  have a0: "getProductById env lib ident = Inr None \<longleftrightarrow>
      ?cfg \<and> (\<exists>r. await_single lib ?q = Inr r
            \<and> ((\<exists>e. error r = Some e \<and> code e = Some ''PGRST116'')
                \<or> (error r = None \<and> data r = None)))"
  proof (cases ?cfg)
    case False
    then show ?thesis
      unfolding g by auto
  next
    case cfg: True
    show ?thesis
    proof (cases "await_single lib ?q")
      case (Inl x)
      with cfg show ?thesis
        unfolding g by simp
    next
      case (Inr r)
      with cfg show ?thesis
        unfolding g by (cases "error r") auto
    qed
  qed
  have a1: "getProductById env lib ident = Inl (Error missing_env_message)" if "\<not> ?cfg"
    using that unfolding g by auto
  have a2: "getProductById env lib ident = Inl x" if "?cfg" "await_single lib ?q = Inl x" for x
    using that unfolding g by simp
  have a3: "getProductById env lib ident = Inl (Error load_error_message)"
    if "?cfg" "await_single lib ?q = Inr r" "error r = Some e" "code e \<noteq> Some ''PGRST116''" for r e
    using that unfolding g by simp
  have a4: "getProductById env lib ident = Inr (Some p)"
    if "?cfg" "await_single lib ?q = Inr r" "error r = None" "data r = Some p" for r p
    using that unfolding g by simp
  have a5: "getProductById env (table_store tbl) ident = Inr None"
    if cfg: "?cfg" and h: "\<forall>p \<in> set tbl. \<not> (p_id p = ident \<and> p_is_active p)"
  proof -
    have "matches (q_filters ?q) p = (p_id p = ident \<and> p_is_active p)" for p
      by (auto simp: getProductById_query_def single_row_def eq_filter_def from_select_def
            matches_def column_def)
    with h have "selected tbl ?q = []"
      by (simp add: selected_def)
    then have "answer_rows tbl ?q = []"
      by (simp add: answer_rows_def window_def getProductById_query_def single_row_def
            eq_filter_def from_select_def sort_rows_def)
    then show ?thesis
      using cfg unfolding getProductById_cases
      by (simp add: table_store_def no_row_error_def)
  qed
  show ?thesis
    using a0 a1 a2 a3 a4 a5 by blast
qed

theorem byid_null_iff_no_row_witness:
  "truthy (NEXT_PUBLIC_SUPABASE_URL env_ok) \<and> truthy (NEXT_PUBLIC_SUPABASE_ANON_KEY env_ok)
   \<and> await_single (table_store small_table) (getProductById_query ''1'')
       = Inr \<lparr>data = None, error = Some no_row_error, count = None\<rparr>
   \<and> code no_row_error = Some ''PGRST116''
   \<and> getProductById env_ok (table_store small_table) ''1'' = Inr None
   \<and> getProductById env_ok (table_store small_table) ''2'' = Inr (Some (sample_product 2))
   \<and> getProductById env_ok (error_client ''42P01'') ''1'' = Inl (Error load_error_message)
   \<and> getProductById env_ok throwing_client ''1'' = Inl (Error ''fetch failed'')
   \<and> getProductById env_missing (table_store small_table) ''1'' = Inl (Error missing_env_message)"
proof -
  have u: "truthy (NEXT_PUBLIC_SUPABASE_URL env_ok)" by (simp add: env_ok_def)
  have k: "truthy (NEXT_PUBLIC_SUPABASE_ANON_KEY env_ok)" by (simp add: env_ok_def)
  have m: "\<not> truthy (NEXT_PUBLIC_SUPABASE_URL env_missing)" by (simp add: env_missing_def)
  have r1: "await_single (table_store small_table) (getProductById_query ''1'')
       = Inr \<lparr>data = None, error = Some no_row_error, count = None\<rparr>"
    by code_simp
  have r2: "await_single (table_store small_table) (getProductById_query ''2'')
       = Inr \<lparr>data = Some (sample_product 2), error = None, count = None\<rparr>"
    by code_simp
  have r3: "await_single (error_client ''42P01'') (getProductById_query ''1'')
       = Inr \<lparr>data = None,
         error = Some \<lparr>message = Some ''relation does not exist'', details = None,
                       hint = None, code = Some ''42P01''\<rparr>,
         count = None\<rparr>"
    by (simp add: error_client_def)
  have r4: "await_single throwing_client (getProductById_query ''1'') = Inl (Error ''fetch failed'')"
    by (simp add: throwing_client_def)
  show ?thesis
    using u k m r1 r2 r3 r4
      byid_null_iff_no_row [of env_ok "table_store small_table" "''1''" "[]"]
      byid_null_iff_no_row [of env_ok "table_store small_table" "''2''" "[]"]
      byid_null_iff_no_row [of env_ok "error_client ''42P01''" "''1''" "[]"]
      byid_null_iff_no_row [of env_ok throwing_client "''1''" "[]"]
      byid_null_iff_no_row [of env_missing "table_store small_table" "''1''" "[]"]
    by (simp add: no_row_error_def)
qed

text \<open>
  Claim C6, as the spec words it, has \<open>null\<close> returned only on the "no row" signal. An
  answer without an error and without a row gives \<open>null\<close> as well.
\<close>

theorem null_without_signal_counterexample:
  "await_single null_client (getProductById_query ''1'')
     = Inr \<lparr>data = None, error = None, count = None\<rparr>
   \<and> getProductById env_ok null_client ''1'' = Inr None"
  by code_simp

section \<open>The listing component\<close>

text \<open>
  Between events the component keeps this invariant: at most one request is in flight,
  \<open>isPending\<close> holds exactly when one is, and the last render knows of it. A click
  breaks the last part until the next render.
\<close>

lemma settled_step:
  assumes "length (inflight s) \<le> 1" and "isPending s \<longleftrightarrow> inflight s \<noteq> []"
    and "inflight s \<noteq> [] \<longrightarrow> v_isPending (view s)" and "e \<noteq> Click"
  shows "length (inflight (step props s e)) \<le> 1
         \<and> (isPending (step props s e) \<longleftrightarrow> inflight (step props s e) \<noteq> [])
         \<and> (inflight (step props s e) \<noteq> [] \<longrightarrow> v_isPending (view (step props s e)))"
proof (cases e)
  case Click
  with assms(4) show ?thesis by simp
next
  case Render
  with assms show ?thesis by simp
next
  case (Settle i r)
  have v: "view (resume f r s) = view s" for f
    by (simp add: resume_def split: FetchResult.splits Json.splits)
  from Settle assms show ?thesis
    by (auto simp: Let_def v)
qed

lemma click_step:
  assumes "length (inflight s) \<le> 1" and "isPending s \<longleftrightarrow> inflight s \<noteq> []"
    and "inflight s \<noteq> [] \<longrightarrow> v_isPending (view s)"
  shows "length (inflight (step props s Click)) \<le> 1
         \<and> (isPending (step props s Click) \<longleftrightarrow> inflight (step props s Click) \<noteq> [])"
  using assms by (auto simp: loadMore_def)

lemma paced_from_run:
  "paced_from after es \<Longrightarrow> length (inflight s) \<le> 1 \<Longrightarrow> (isPending s \<longleftrightarrow> inflight s \<noteq> []) \<Longrightarrow>
     (\<not> after \<longrightarrow> inflight s \<noteq> [] \<longrightarrow> v_isPending (view s)) \<Longrightarrow>
     length (inflight (run props s es)) \<le> 1
     \<and> (isPending (run props s es) \<longleftrightarrow> inflight (run props s es) \<noteq> [])"
proof (induction es arbitrary: s after)
  case Nil
  then show ?case by (simp add: run_def)
next
  case (Cons e es)
  have r: "run props s (e # es) = run props (step props s e) es"
    by (simp add: run_def)
  show ?case
  proof (cases after)
    case True
    with Cons.prems(1) have e: "e = Render" and p: "paced_from False es"
      by simp_all
    have "length (inflight (run props (step props s Render) es)) \<le> 1
       \<and> (isPending (run props (step props s Render) es)
            \<longleftrightarrow> inflight (run props (step props s Render) es) \<noteq> [])"
      using Cons.prems(2,3) by (intro Cons.IH[OF p]) simp_all
    then show ?thesis
      unfolding r by (simp add: e)
  next
    case False
    with Cons.prems(4) have sync: "inflight s \<noteq> [] \<longrightarrow> v_isPending (view s)"
      by simp
    from False Cons.prems(1) have p: "paced_from (e = Click) es"
      by simp
    show ?thesis
    proof (cases "e = Click")
      case True
      from click_step[OF Cons.prems(2,3) sync, of props]
      have "length (inflight (run props (step props s Click) es)) \<le> 1
       \<and> (isPending (run props (step props s Click) es)
            \<longleftrightarrow> inflight (run props (step props s Click) es) \<noteq> [])"
        using p True by (intro Cons.IH[of True]) simp_all
      then show ?thesis
        unfolding r by (simp add: True)
    next
      case ne: False
      from settled_step[OF Cons.prems(2,3) sync ne, of props]
      have "length (inflight (run props (step props s e) es)) \<le> 1
       \<and> (isPending (run props (step props s e) es)
            \<longleftrightarrow> inflight (run props (step props s e) es) \<noteq> [])"
        using p ne by (intro Cons.IH[of False]) simp_all
      then show ?thesis
        unfolding r .
    qed
  qed
qed

lemma paced_reachable:
  "paced es \<Longrightarrow> length (inflight (run props (initial props) es)) \<le> 1
     \<and> (isPending (run props (initial props) es) \<longleftrightarrow> inflight (run props (initial props) es) \<noteq> [])"
  unfolding paced_def by (rule paced_from_run) (simp_all add: initial_def)

lemma click_guarded: "v_isPending (view s) \<or> \<not> hasMore props s \<Longrightarrow> step props s Click = s"
  by auto

text \<open>
  Claim C8, as the code has it. \<open>loadMore\<close> itself has no guard; the guard is the button,
  which the last render left out when it found \<open>hasMore\<close> false and disabled when it
  found \<open>isPending\<close> true. A click on the button in either of these cases changes
  nothing and sends no request. When a render follows every click before the next
  event, at most one page request is in flight in every state reached, and
  \<open>isPending\<close> holds exactly while one is; so a click, the render, and a second click
  before the answer leave exactly one request in flight.
\<close>

theorem one_request_in_flight:
  "(paced es \<longrightarrow>
      length (inflight (run props (initial props) es)) \<le> 1
      \<and> (isPending (run props (initial props) es) \<longleftrightarrow> inflight (run props (initial props) es) \<noteq> []))
   \<and> (v_isPending (view s) \<or> \<not> hasMore props s \<longrightarrow> step props s Click = s)
   \<and> (hasMore props (initial props) \<longrightarrow>
        length (inflight (run props (initial props) [Click, Render])) = 1
        \<and> v_isPending (view (run props (initial props) [Click, Render]))
        \<and> run props (initial props) [Click, Render, Click] = run props (initial props) [Click, Render])"
proof -
  have two: "length (inflight (run props (initial props) [Click, Render])) = 1
        \<and> v_isPending (view (run props (initial props) [Click, Render]))
        \<and> run props (initial props) [Click, Render, Click] = run props (initial props) [Click, Render]"
    if "hasMore props (initial props)"
    using that by (simp add: run_def initial_def loadMore_def hasMore_def)
  show ?thesis
    using paced_reachable[of es props] click_guarded[of s props] two by blast
qed

theorem one_request_in_flight_witness:
  "paced [Click, Render, Click, Render, Settle 0 Rejected, Click]
   \<and> length (inflight (run props30 (initial props30)
        [Click, Render, Click, Render, Settle 0 Rejected, Click])) \<le> 1
   \<and> hasMore props30 (initial props30)
   \<and> length (inflight (run props30 (initial props30) [Click, Render])) = 1
   \<and> v_isPending (view (run props30 (initial props30) [Click, Render]))
   \<and> step props30 (run props30 (initial props30) [Click, Render]) Click
       = run props30 (initial props30) [Click, Render]
   \<and> length (inflight (run props30 (initial props30) [Click, Render, Click])) = 1"
proof -
  have p: "paced [Click, Render, Click, Render, Settle 0 Rejected, Click]"
    by (simp add: paced_def)
  have h: "hasMore props30 (initial props30)"
    by (simp add: hasMore_def initial_def props30_def)
  have v: "v_isPending (view (run props30 (initial props30) [Click, Render]))"
    by code_simp
  show ?thesis
    using p h v
      one_request_in_flight [of "[Click, Render, Click, Render, Settle 0 Rejected, Click]" props30
        "run props30 (initial props30) [Click, Render]"]
    by simp
qed

text \<open>
  Claim C8, as the spec words it, makes every \<open>loadMore\<close> invocation while pending a
  no-op. Invoked twice in a row, \<open>loadMore\<close> sends two requests, the second while
  \<open>isPending\<close> holds; so do two clicks that no render separates.
\<close>

theorem unguarded_loadMore_counterexample:
  "isPending (loadMore props30 (initial props30))
   \<and> length (inflight (loadMore props30 (initial props30))) = 1
   \<and> length (inflight (loadMore props30 (loadMore props30 (initial props30)))) = 2
   \<and> length (inflight (run props30 (initial props30) [Click, Click])) = 2"
  by code_simp



section \<open>The query parameters of the route\<close>

lemma digit_val_digit_char: "d < 10 \<Longrightarrow> digit_val (digit_char d) = int d"
  by (simp add: digit_val_def digit_char_def)

lemma is_digit_digit_char: "d < 10 \<Longrightarrow> is_digit (digit_char d)"
  by (simp add: is_digit_def digit_char_def)

lemma digits_all_digit: "\<forall>c \<in> set (digits n). is_digit c"
proof (induction n rule: digits.induct)
  case (1 n)
  show ?case
  proof (cases "n < 10")
    case True
    then show ?thesis
      by (subst digits.simps) (simp add: is_digit_digit_char)
  next
    case False
    with 1 show ?thesis
      by (subst digits.simps) (simp add: is_digit_digit_char)
  qed
qed

lemma digits_nonempty: "digits n \<noteq> []"
  by (subst digits.simps) simp

lemma decimal_digits: "decimal (digits n) = int n"
proof (induction n rule: digits.induct)
  case (1 n)
  show ?case
  proof (cases "n < 10")
    case True
    then show ?thesis
      by (subst digits.simps) (simp add: digit_val_digit_char decimal_def)
  next
    case False
    have "int (n div 10) * 10 + int (n mod 10) = int n"
      by presburger
    with False 1 show ?thesis
      by (subst digits.simps) (simp add: digit_val_digit_char decimal_def)
  qed
qed


lemma leading_space_all:
  "list_all (\<lambda>w. \<forall>u. leading_space (w @ u) = Some w) js_whitespace"
  unfolding leading_space_def js_whitespace_def
  by simp

lemma leading_space_append: "w \<in> set js_whitespace \<Longrightarrow> leading_space (w @ u) = Some w"
  using leading_space_all by (simp add: list_all_iff)

lemma skip_space_append: "w \<in> set js_whitespace \<Longrightarrow> skip_space (w @ u) = skip_space u"
  by (subst skip_space.simps) (simp add: leading_space_append)

lemma skip_space_concat: "set ws \<subseteq> set js_whitespace \<Longrightarrow> skip_space (concat ws @ u) = skip_space u"
  by (induction ws) (simp_all add: skip_space_append)

lemma skip_space_none: "leading_space u = None \<Longrightarrow> skip_space u = u"
  by (subst skip_space.simps) simp

lemma leading_space_other:
  "c \<notin> {CHR 0x09, CHR 0x0A, CHR 0x0B, CHR 0x0C, CHR 0x0D, CHR 0x20, CHR 0xC2, CHR 0xE1,
          CHR 0xE2, CHR 0xE3, CHR 0xEF} \<Longrightarrow> leading_space (c # r) = None"
  by (simp add: js_whitespace_def leading_space_def)

lemma leading_space_digit: "is_digit c \<Longrightarrow> leading_space (c # r) = None"
  by (rule leading_space_other) (auto simp: is_digit_def)

lemma leading_space_sign: "c = CHR ''+'' \<or> c = CHR ''-'' \<Longrightarrow> leading_space (c # r) = None"
  by (rule leading_space_other) auto

lemma leading_space_nil: "leading_space [] = None"
  by (simp add: js_whitespace_def leading_space_def)

lemma is_digit_not_sign: "is_digit c \<Longrightarrow> c \<noteq> CHR ''-'' \<and> c \<noteq> CHR ''+''"
  by (auto simp: is_digit_def)

lemma takeWhile_digits:
  "\<forall>c \<in> set ds. is_digit c \<Longrightarrow> rest = [] \<or> \<not> is_digit (hd rest) \<Longrightarrow>
     takeWhile is_digit (ds @ rest) = ds"
  by (cases rest) (simp_all add: takeWhile_append2 takeWhile_eq_all_conv[THEN iffD2])

lemma parse_trimmed_digits:
  assumes "ds \<noteq> []" and "\<forall>c \<in> set ds. is_digit c" and "rest = [] \<or> \<not> is_digit (hd rest)"
  shows "parse_trimmed (ds @ rest) = to_number (decimal ds)"
    and "parse_trimmed (CHR ''+'' # ds @ rest) = to_number (decimal ds)"
    and "parse_trimmed (CHR ''-'' # ds @ rest) = to_number (- decimal ds)"
proof -
  obtain d dr where d: "ds = d # dr"
    using assms(1) by (cases ds) auto
  have dd: "is_digit d"
    using assms(2) d by simp
  have tw: "takeWhile is_digit (ds @ rest) = ds"
    using assms(2,3) by (rule takeWhile_digits)
  have tw': "takeWhile is_digit (d # dr @ rest) = d # dr"
    using tw by (simp only: d append_Cons)
  show "parse_trimmed (ds @ rest) = to_number (decimal ds)"
    using is_digit_not_sign[OF dd] tw'
    by (simp only: parse_trimmed_def Let_def d append_Cons list.case) simp
  show "parse_trimmed (CHR ''+'' # ds @ rest) = to_number (decimal ds)"
    using tw assms(1)
    by (simp only: parse_trimmed_def Let_def list.case) simp
  show "parse_trimmed (CHR ''-'' # ds @ rest) = to_number (- decimal ds)"
    using tw assms(1)
    by (simp only: parse_trimmed_def Let_def list.case) simp
qed

lemma parse_trimmed_NaN:
  assumes "rest = [] \<or> \<not> is_digit (hd rest)"
  shows "parse_trimmed (CHR ''+'' # rest) = NaN"
    and "parse_trimmed (CHR ''-'' # rest) = NaN"
    and "rest = [] \<or> hd rest \<notin> {CHR ''+'', CHR ''-''} \<Longrightarrow> parse_trimmed rest = NaN"
proof -
  have tw: "takeWhile is_digit rest = []"
    using assms by (cases rest) auto
  show "parse_trimmed (CHR ''+'' # rest) = NaN"
    using tw by (simp only: parse_trimmed_def Let_def list.case) simp
  show "parse_trimmed (CHR ''-'' # rest) = NaN"
    using tw by (simp only: parse_trimmed_def Let_def list.case) simp
  show "parse_trimmed rest = NaN" if "rest = [] \<or> hd rest \<notin> {CHR ''+'', CHR ''-''}"
  proof (cases rest)
    case Nil
    then show ?thesis by (simp add: parse_trimmed_def)
  next
    case (Cons c r)
    with that tw show ?thesis
      by (simp only: parse_trimmed_def Let_def list.case) (simp split: if_splits)
  qed
qed

lemma parseInt10_skip:
  assumes "set ws \<subseteq> set js_whitespace" and "leading_space t = None"
  shows "parseInt10 (concat ws @ t) = parse_trimmed t"
proof -
  have "skip_space (concat ws @ t) = skip_space t"
    using assms(1) by (rule skip_space_concat)
  also have "\<dots> = t"
    using assms(2) by (rule skip_space_none)
  finally show ?thesis
    by (simp only: parseInt10_def)
qed

lemma parseInt10_number:
  assumes "set ws \<subseteq> set js_whitespace" and "sg \<in> {[], ''+'', ''-''}"
    and "ds \<noteq> []" and "\<forall>c \<in> set ds. is_digit c" and "rest = [] \<or> \<not> is_digit (hd rest)"
  shows "parseInt10 (concat ws @ sg @ ds @ rest) =
           to_number (if sg = ''-'' then - decimal ds else decimal ds)"
proof -
  obtain d dr where d: "ds = d # dr"
    using assms(3) by (cases ds) auto
  have dd: "is_digit d"
    using assms(4) d by simp
  note pt = parse_trimmed_digits[OF assms(3,4,5)]
  consider "sg = []" | "sg = ''+''" | "sg = ''-''"
    using assms(2) by auto
  then show ?thesis
  proof cases
    case 1
    have "leading_space (ds @ rest) = None"
      unfolding d append_Cons using dd by (rule leading_space_digit)
    from parseInt10_skip[OF assms(1) this] show ?thesis
      using 1 pt(1) by simp
  next
    case 2
    have "leading_space (CHR ''+'' # ds @ rest) = None"
      by (rule leading_space_sign) simp
    from parseInt10_skip[OF assms(1) this] show ?thesis
      using 2 pt(2) by simp
  next
    case 3
    have "leading_space (CHR ''-'' # ds @ rest) = None"
      by (rule leading_space_sign) simp
    from parseInt10_skip[OF assms(1) this] show ?thesis
      using 3 pt(3) by simp
  qed
qed

lemma parseInt10_NaN:
  assumes "set ws \<subseteq> set js_whitespace" and "sg \<in> {[], ''+'', ''-''}"
    and "rest = [] \<or> \<not> is_digit (hd rest)"
    and "sg = [] \<longrightarrow> leading_space rest = None \<and> (rest = [] \<or> hd rest \<notin> {CHR ''+'', CHR ''-''})"
  shows "parseInt10 (concat ws @ sg @ rest) = NaN"
proof -
  note pt = parse_trimmed_NaN[OF assms(3)]
  consider "sg = []" | "sg = ''+''" | "sg = ''-''"
    using assms(2) by auto
  then show ?thesis
  proof cases
    case 1
    with assms(4) have n: "leading_space rest = None"
      and h: "rest = [] \<or> hd rest \<notin> {CHR ''+'', CHR ''-''}"
      by simp_all
    from parseInt10_skip[OF assms(1) n] show ?thesis
      using 1 pt(3)[OF h] by simp
  next
    case 2
    have "leading_space (CHR ''+'' # rest) = None"
      by (rule leading_space_sign) simp
    from parseInt10_skip[OF assms(1) this] show ?thesis
      using 2 pt(1) by simp
  next
    case 3
    have "leading_space (CHR ''-'' # rest) = None"
      by (rule leading_space_sign) simp
    from parseInt10_skip[OF assms(1) this] show ?thesis
      using 3 pt(2) by simp
  qed
qed

lemma to_number_safe: "\<bar>i\<bar> \<le> 2 ^ 53 \<Longrightarrow> to_number i = Num i"
proof -
  assume a: "\<bar>i\<bar> \<le> 2 ^ 53"
  have top: "nearest_double 9007199254740992 = 9007199254740992"
    by code_simp
  have nd: "nearest_double \<bar>i\<bar> = \<bar>i\<bar>"
  proof (cases "\<bar>i\<bar> < 2 ^ 53")
    case True
    then show ?thesis by (simp add: nearest_double_def)
  next
    case False
    with a have "\<bar>i\<bar> = 9007199254740992" by simp
    with top show ?thesis by simp
  qed
  have "\<not> (2 :: int) ^ 1024 \<le> \<bar>i\<bar>"
    using a by simp
  then show ?thesis
    unfolding to_number_def nd Let_def by auto
qed


text \<open>
  Claim C4, as the code has it. The \<open>limit\<close> and \<open>offset\<close> parameters of
  \<open>GET /api/products\<close> default to 12 and 0 when they are absent or empty. Any other
  value is given to \<open>parseInt\<close> in base 10 and used as parsed: leading white space and
  one sign are skipped, the run of decimal digits that follows is read as a number
  (the integer itself up to \<open>2^53\<close>) and whatever follows the digits is ignored; when
  no digit stands at that place the result is \<open>NaN\<close>, not the default.
\<close>

theorem limit_offset_defaults:
  "(get_param sp ''limit'' = None \<or> get_param sp ''limit'' = Some [] \<longrightarrow>
      fst (snd (snd (GET_params sp))) = Num 12)
   \<and> (get_param sp ''offset'' = None \<or> get_param sp ''offset'' = Some [] \<longrightarrow>
      snd (snd (snd (GET_params sp))) = Num 0)
   \<and> (\<forall>v. get_param sp ''limit'' = Some v \<and> v \<noteq> [] \<longrightarrow>
      fst (snd (snd (GET_params sp))) = parseInt10 v)
   \<and> (\<forall>v. get_param sp ''offset'' = Some v \<and> v \<noteq> [] \<longrightarrow>
      snd (snd (snd (GET_params sp))) = parseInt10 v)
   \<and> (set ws \<subseteq> set js_whitespace \<and> sg \<in> {[], ''+'', ''-''} \<and> ds \<noteq> []
        \<and> (\<forall>c \<in> set ds. is_digit c) \<and> (rest = [] \<or> \<not> is_digit (hd rest)) \<longrightarrow>
      parseInt10 (concat ws @ sg @ ds @ rest) =
        to_number (if sg = ''-'' then - decimal ds else decimal ds))
   \<and> (set ws \<subseteq> set js_whitespace \<and> sg \<in> {[], ''+'', ''-''}
        \<and> (rest = [] \<or> \<not> is_digit (hd rest))
        \<and> (sg = [] \<longrightarrow> leading_space rest = None
                        \<and> (rest = [] \<or> hd rest \<notin> {CHR ''+'', CHR ''-''})) \<longrightarrow>
      parseInt10 (concat ws @ sg @ rest) = NaN)
   \<and> decimal (digits n) = int n
   \<and> (\<bar>i\<bar> \<le> 2 ^ 53 \<longrightarrow> to_number i = Num i)"
proof -
  have twelve: "parseInt10 ''12'' = Num 12" and zero: "parseInt10 ''0'' = Num 0"
    by code_simp+
  have a: "fst (snd (snd (GET_params sp))) = Num 12"
    if "get_param sp ''limit'' = None \<or> get_param sp ''limit'' = Some []"
    using that twelve by (auto simp: GET_params_def Let_def)
  have b: "snd (snd (snd (GET_params sp))) = Num 0"
    if "get_param sp ''offset'' = None \<or> get_param sp ''offset'' = Some []"
    using that zero by (auto simp: GET_params_def Let_def)
  have c: "fst (snd (snd (GET_params sp))) = parseInt10 v"
    if "get_param sp ''limit'' = Some v" "v \<noteq> []" for v
    using that by (simp add: GET_params_def Let_def)
  have d: "snd (snd (snd (GET_params sp))) = parseInt10 v"
    if "get_param sp ''offset'' = Some v" "v \<noteq> []" for v
    using that by (simp add: GET_params_def Let_def)
  show ?thesis
    using a b c d parseInt10_number[of ws sg ds rest] parseInt10_NaN[of ws sg rest]
      decimal_digits[of n] to_number_safe[of i]
    by blast
qed

theorem limit_offset_defaults_witness:
  "get_param [(''limit'', []), (''sort'', ''oldest'')] ''limit'' = Some []
   \<and> get_param [(''limit'', []), (''sort'', ''oldest'')] ''offset'' = None
   \<and> GET_params [(''limit'', []), (''sort'', ''oldest'')] = (None, ''oldest'', Num 12, Num 0)
   \<and> GET_params [(''limit'', ''24''), (''offset'', ''12abc'')] = (None, ''newest'', Num 24, Num 12)
   \<and> parseInt10 (concat [[CHR 0xC2, CHR 0xA0], [CHR 0x20]] @ ''-'' @ ''12'' @ ''abc'') = Num (- 12)
   \<and> parseInt10 (concat [[CHR 0xC2, CHR 0xA0], [CHR 0x20]] @ ''-'' @ ''abc'') = NaN
   \<and> parseInt10 (concat [[CHR 0x09]] @ [] @ ''abc'') = NaN
   \<and> decimal (digits 24) = 24
   \<and> to_number 9007199254740992 = Num 9007199254740992
   \<and> parseInt10 ''9007199254740993'' = Num 9007199254740992"
proof -
  have e1: "GET_params [(''limit'', []), (''sort'', ''oldest'')] = (None, ''oldest'', Num 12, Num 0)"
    by code_simp
  have e2: "GET_params [(''limit'', ''24''), (''offset'', ''12abc'')] = (None, ''newest'', Num 24, Num 12)"
    by code_simp
  have e3: "parseInt10 ''9007199254740993'' = Num 9007199254740992"
    by code_simp
  have w1: "set [[CHR 0xC2, CHR 0xA0], [CHR 0x20]] \<subseteq> set js_whitespace"
    and w2: "set [[CHR 0x09]] \<subseteq> set js_whitespace"
    by (simp_all add: js_whitespace_def)
  have dg: "\<forall>c \<in> set ''12''. is_digit c" "\<not> is_digit (hd ''abc'')"
    by (simp_all add: is_digit_def)
  have ls: "leading_space ''abc'' = None"
    by (rule leading_space_other) simp
  have tn: "to_number (- decimal ''12'') = Num (- 12)"
    by code_simp
  show ?thesis
    using e1 e2 e3 w1 w2 dg ls tn
      limit_offset_defaults [of "[(''limit'', []), (''sort'', ''oldest'')]"
        "[[CHR 0xC2, CHR 0xA0], [CHR 0x20]]" "''-''" "''12''" "''abc''" 24 9007199254740992]
      limit_offset_defaults [of "[(''limit'', ''24''), (''offset'', ''12abc'')]"
        "[[CHR 0x09]]" "[]" "''12''" "''abc''" 24 9007199254740992]
    by (simp add: get_param_def)
qed

text \<open>
  Claim C4, as the spec words it, says that a non-numeric \<open>limit\<close> or \<open>offset\<close> also
  falls back to 12 or 0. The values \<open>abc\<close> and \<open>xyz\<close> are parsed to \<open>NaN\<close> instead.
\<close>

theorem nonnumeric_limit_counterexample:
  "get_param [(''limit'', ''abc''), (''offset'', ''xyz'')] ''limit'' = Some ''abc''
   \<and> get_param [(''limit'', ''abc''), (''offset'', ''xyz'')] ''offset'' = Some ''xyz''
   \<and> GET_params [(''limit'', ''abc''), (''offset'', ''xyz'')] = (None, ''newest'', NaN, NaN)
   \<and> fst (snd (snd (GET_params [(''limit'', ''abc''), (''offset'', ''xyz'')]))) \<noteq> Num 12
   \<and> snd (snd (snd (GET_params [(''limit'', ''abc''), (''offset'', ''xyz'')]))) \<noteq> Num 0"
  by code_simp

section \<open>The first load of the listing component\<close>

text \<open>
  Claim C1, on the scenario of twelve loaded products out of thirty. The first click sends
  \<open>offset = 12\<close> together with \<open>limit = 24\<close>, the \<open>limit\<close> cell plus twelve, where the
  increment is twelve. Served by the route over thirty active rows, this one request
  brings all thirty products into the list, so \<open>hasMore\<close> is false after the first load
  already, and a further click sends nothing.
\<close>

theorem loadMore_first_request:
  "length (initialProducts props30) = 12 \<and> props_total props30 = 30 \<and> initialLimit props30 = 12
   \<and> map fetch_params (inflight (step props30 (initial props30) Click))
       = [[(''sort'', ''newest''), (''limit'', ''24''), (''offset'', ''12'')]]
   \<and> GET_params [(''sort'', ''newest''), (''limit'', ''24''), (''offset'', ''12'')]
       = (None, ''newest'', Num 24, Num 12)
   \<and> click_served env_ok (table_store table30) props30 (initial props30)
       = \<lparr>st_products = table30, st_limit = 24, isPending = False, inflight = [], alerts = [],
          view = \<lparr>v_products = table30, v_limit = 24, v_isPending = False\<rparr>\<rparr>
   \<and> length table30 = 30
   \<and> \<not> hasMore props30 (click_served env_ok (table_store table30) props30 (initial props30))
   \<and> step props30 (click_served env_ok (table_store table30) props30 (initial props30)) Click
       = click_served env_ok (table_store table30) props30 (initial props30)"
proof -
  have p: "length (initialProducts props30) = 12 \<and> props_total props30 = 30 \<and> initialLimit props30 = 12"
    by (simp add: props30_def)
  have req: "map fetch_params (inflight (step props30 (initial props30) Click))
       = [[(''sort'', ''newest''), (''limit'', ''24''), (''offset'', ''12'')]]"
    by code_simp
  have par: "GET_params [(''sort'', ''newest''), (''limit'', ''24''), (''offset'', ''12'')]
       = (None, ''newest'', Num 24, Num 12)"
    by code_simp
  have srv: "click_served env_ok (table_store table30) props30 (initial props30)
       = \<lparr>st_products = table30, st_limit = 24, isPending = False, inflight = [], alerts = [],
          view = \<lparr>v_products = table30, v_limit = 24, v_isPending = False\<rparr>\<rparr>"
    by code_simp
  have len: "length table30 = 30"
    by (simp add: table30_def)
  have nomore: "\<not> hasMore props30 \<lparr>st_products = table30, st_limit = 24, isPending = False,
                    inflight = [], alerts = [],
                    view = \<lparr>v_products = table30, v_limit = 24, v_isPending = False\<rparr>\<rparr>"
    by (simp add: hasMore_def len props30_def)
  show ?thesis
    unfolding srv using p req par len nomore by simp
qed

end
